theory Spec2Isabelle
  imports Main
begin

section \<open>Time\<close>

text \<open>
  Go's \<open>time.Time\<close> instants and \<open>time.Duration\<close> values are counted in nanoseconds.
  Instants are read on one unbounded line, so \<open>Add\<close> is addition and \<open>After\<close> is the
  strict order. The clock (\<open>time.Now()\<close>) is an input of every operation that reads it.
\<close>

type_synonym Time = int
type_synonym Duration = int

definition time_Second :: Duration where
  "time_Second = 1000000000"

definition time_Minute :: Duration where
  "time_Minute = 60 * time_Second"

definition time_Add :: "Time \<Rightarrow> Duration \<Rightarrow> Time" where
  "time_Add t d = t + d"

definition time_After :: "Time \<Rightarrow> Time \<Rightarrow> bool" where
  "time_After t u \<longleftrightarrow> u < t"

section \<open>The in-memory cache (README, step 2)\<close>

text \<open>
  \<open>type CacheEntry struct { Response []byte; Expires time.Time }\<close>
\<close>

record CacheEntry =
  Response :: string
  Expires :: Time

subsection \<open>The recency list behind the cache\<close>

text \<open>
  Modelled from the spec: the package \<open>github.com/hashicorp/golang-lru\<close>, whose
  \<open>lru.Cache\<close> the source imports and calls (\<open>lru.New\<close>, \<open>Add\<close>, \<open>Get\<close>,
  \<open>Remove\<close>), is not among the source files. The store is the spec's bounded
  key-to-entry mapping together with its recency order (sections 3 and 4.1): a list of
  (key, entry) pairs, most recently used first, so the least recently used entry is the
  last one. The capacity is fixed at construction.
\<close>

record lru_Cache =
  lru_size :: int
  lru_items :: "(string \<times> CacheEntry) list"

text \<open>
  Modelled from the spec: \<open>lru.New(size)\<close>. The source handles an error of this
  constructor; the package documents it for a size that is not positive, and the spec's
  capacity is a maximum number of live entries.
\<close>

definition lru_New :: "int \<Rightarrow> string + lru_Cache" where
  "lru_New n =
     (if n \<le> 0 then Inl ''must provide a positive size''
      else Inr \<lparr>lru_size = n, lru_items = []\<rparr>)"

definition lru_Contains :: "lru_Cache \<Rightarrow> string \<Rightarrow> bool" where
  "lru_Contains l k \<longleftrightarrow> map_of (lru_items l) k \<noteq> None"

definition lru_Keys :: "lru_Cache \<Rightarrow> string list" where
  "lru_Keys l = map fst (lru_items l)"

definition lru_Len :: "lru_Cache \<Rightarrow> nat" where
  "lru_Len l = length (lru_items l)"

text \<open>
  Modelled from the spec: \<open>Add\<close>, the store's insertion (section 4.1). Replacing an
  existing key leaves the count alone and moves the key to most-recent; a new key
  arriving at a full store first evicts the least recently used entry.
\<close>

definition lru_Add :: "lru_Cache \<Rightarrow> string \<Rightarrow> CacheEntry \<Rightarrow> lru_Cache" where
  "lru_Add l k v =
     (if lru_Contains l k
      then l\<lparr>lru_items := (k, v) # filter (\<lambda>p. fst p \<noteq> k) (lru_items l)\<rparr>
      else l\<lparr>lru_items := (k, v) #
             (if int (length (lru_items l)) = lru_size l then butlast (lru_items l)
              else lru_items l)\<rparr>)"

text \<open>
  Modelled from the spec: \<open>Get\<close> of the recency list. A key that is found moves to
  most-recent; expiry is not its business but \<open>Cache.Get\<close>'s, below.
\<close>

definition lru_Get :: "lru_Cache \<Rightarrow> string \<Rightarrow> lru_Cache \<times> CacheEntry option" where
  "lru_Get l k =
     (case map_of (lru_items l) k of
        None \<Rightarrow> (l, None)
      | Some v \<Rightarrow> (l\<lparr>lru_items := (k, v) # filter (\<lambda>p. fst p \<noteq> k) (lru_items l)\<rparr>, Some v))"

text \<open>Modelled from the spec: \<open>Remove\<close>, the physical removal of one key.\<close>

definition lru_Remove :: "lru_Cache \<Rightarrow> string \<Rightarrow> lru_Cache" where
  "lru_Remove l k = l\<lparr>lru_items := filter (\<lambda>p. fst p \<noteq> k) (lru_items l)\<rparr>"

subsection \<open>Cache, NewCache, Set, Get\<close>

text \<open>
  \<open>type Cache struct { lru *lru.Cache; mu sync.RWMutex; size int; ttl time.Duration }\<close>.
  The mutex serialises the calls; one call is one step here.
\<close>

record Cache =
  lru :: lru_Cache
  csize :: int
  ttl :: Duration

definition NewCache :: "int \<Rightarrow> Duration \<Rightarrow> string + Cache" where
  "NewCache n d =
     (case lru_New n of
        Inl err \<Rightarrow> Inl err
      | Inr cache \<Rightarrow> Inr \<lparr>lru = cache, csize = n, ttl = d\<rparr>)"

text \<open>\<open>func (c *Cache) Set(key string, response []byte)\<close>, at clock reading \<open>now\<close>.\<close>

definition Cache_Set :: "Cache \<Rightarrow> Time \<Rightarrow> string \<Rightarrow> string \<Rightarrow> Cache" where
  "Cache_Set c now key response =
     c\<lparr>lru := lru_Add (lru c) key
                 \<lparr>Response = response, Expires = time_Add now (ttl c)\<rparr>\<rparr>"

text \<open>
  \<open>func (c *Cache) Get(key string) ([]byte, bool)\<close>, at clock reading \<open>now\<close>:
  \<open>None\<close> is the source's \<open>(nil, false)\<close>.
\<close>

definition Cache_Get :: "Cache \<Rightarrow> Time \<Rightarrow> string \<Rightarrow> Cache \<times> string option" where
  "Cache_Get c now key =
     (case lru_Get (lru c) key of
        (l, None) \<Rightarrow> (c\<lparr>lru := l\<rparr>, None)
      | (l, Some entry) \<Rightarrow>
          if time_After now (Expires entry)
          then (c\<lparr>lru := lru_Remove l key\<rparr>, None)
          else (c\<lparr>lru := l\<rparr>, Some (Response entry)))"

text \<open>A run of \<open>Set\<close> calls, each with its clock reading, key and response.\<close>

fun Cache_Set_all :: "Cache \<Rightarrow> (Time \<times> string \<times> string) list \<Rightarrow> Cache" where
  "Cache_Set_all c [] = c"
| "Cache_Set_all c ((now, key, response) # ops) = Cache_Set_all (Cache_Set c now key response) ops"

definition Cache_Len :: "Cache \<Rightarrow> nat" where
  "Cache_Len c = lru_Len (lru c)"

definition Cache_Keys :: "Cache \<Rightarrow> string list" where
  "Cache_Keys c = lru_Keys (lru c)"

section \<open>HTTP messages\<close>

text \<open>
  \<open>http.Header\<close> is a map from a header name to the list of its values. It is kept as an
  association list with one pair for each name; \<open>Add\<close> appends a value to the list of its
  name, \<open>Set\<close> replaces the list. Names arrive in canonical form from the parsed message,
  so the canonicalisation that \<open>Add\<close> and \<open>Set\<close> apply leaves them as they are.
\<close>

type_synonym http_Header = "(string \<times> string list) list"

fun Header_Add :: "http_Header \<Rightarrow> string \<Rightarrow> string \<Rightarrow> http_Header" where
  "Header_Add [] key value = [(key, [value])]"
| "Header_Add ((k, vs) # h) key value =
     (if k = key then (k, vs @ [value]) # h else (k, vs) # Header_Add h key value)"

fun Header_Set :: "http_Header \<Rightarrow> string \<Rightarrow> string \<Rightarrow> http_Header" where
  "Header_Set [] key value = [(key, [value])]"
| "Header_Set ((k, vs) # h) key value =
     (if k = key then (k, [value]) # h else (k, vs) # Header_Set h key value)"

text \<open>
  The loop both handlers use to copy a header:
  \<open>for key, values := range src { for _, value := range values { dst.Add(key, value) } }\<close>.
\<close>

definition copy_Header :: "http_Header \<Rightarrow> http_Header \<Rightarrow> http_Header" where
  "copy_Header dst src =
     fold (\<lambda>(key, values) h. fold (\<lambda>value h'. Header_Add h' key value) values h) src dst"

text \<open>
  What a handler has sent through its \<open>http.ResponseWriter\<close>: the header map, the
  informational (1xx) status lines, the final status line once it is written, and the
  body bytes that \<open>Write\<close> took under that status. What the server does on the wire
  by itself (\<open>Date\<close>, a sniffed \<open>Content-Type\<close>, the framing against a declared
  \<open>Content-Length\<close>, no body in the answer to a \<open>HEAD\<close>) is not part of what the
  handler sent.
\<close>

record ResponseWriter =
  wHeader :: http_Header
  wInformational :: "int list"
  wStatus :: "int option"
  wBody :: string

definition new_ResponseWriter :: ResponseWriter where
  "new_ResponseWriter = \<lparr>wHeader = [], wInformational = [], wStatus = None, wBody = []\<rparr>"

definition http_StatusSwitchingProtocols :: int where
  "http_StatusSwitchingProtocols = 101"

definition http_StatusOK :: int where
  "http_StatusOK = 200"

definition http_StatusNoContent :: int where
  "http_StatusNoContent = 204"

definition http_StatusNotModified :: int where
  "http_StatusNotModified = 304"

definition http_StatusInternalServerError :: int where
  "http_StatusInternalServerError = 500"

definition http_StatusBadGateway :: int where
  "http_StatusBadGateway = 502"

text \<open>
  \<open>checkWriteHeaderCode\<close> of \<open>net/http\<close>: a status below 100 or above 999 makes
  \<open>WriteHeader\<close> panic with \<open>invalid WriteHeader code\<close> and the code. \<open>Some\<close> is
  the panic.
\<close>

datatype panic = invalid_WriteHeader_code int

definition checkWriteHeaderCode :: "int \<Rightarrow> panic option" where
  "checkWriteHeaderCode code =
     (if code < 100 \<or> 999 < code then Some (invalid_WriteHeader_code code) else None)"

text \<open>
  \<open>w.WriteHeader(code)\<close>, with \<open>Inl\<close> the panic. Once the status line is written a
  further call is ignored. Otherwise the code is checked; an informational code other
  than 101 is sent at once and leaves the final status open; any other code becomes the
  status of the response.
\<close>

definition rw_WriteHeader :: "ResponseWriter \<Rightarrow> int \<Rightarrow> panic + ResponseWriter" where
  "rw_WriteHeader w code =
     (if wStatus w \<noteq> None then Inr w
      else case checkWriteHeaderCode code of
             Some p \<Rightarrow> Inl p
           | None \<Rightarrow>
               if 100 \<le> code \<and> code \<le> 199 \<and> code \<noteq> http_StatusSwitchingProtocols
               then Inr (w\<lparr>wInformational := wInformational w @ [code]\<rparr>)
               else Inr (w\<lparr>wStatus := Some code\<rparr>))"

text \<open>\<open>bodyAllowedForStatus\<close> of \<open>net/http\<close>: no body under 1xx, 204 and 304.\<close>

definition bodyAllowedForStatus :: "int \<Rightarrow> bool" where
  "bodyAllowedForStatus status =
     (if 100 \<le> status \<and> status \<le> 199 then False
      else if status = http_StatusNoContent then False
      else if status = http_StatusNotModified then False
      else True)"

text \<open>
  \<open>w.Write(bs)\<close>: when no status line is written yet, \<open>WriteHeader(http.StatusOK)\<close>
  comes first (200 passes the check and is final). Then the bytes are taken, unless they
  are none or the status allows no body (\<open>Write\<close> then returns \<open>ErrBodyNotAllowed\<close>;
  neither handler looks at what \<open>Write\<close> returns).
\<close>

definition rw_Write :: "ResponseWriter \<Rightarrow> string \<Rightarrow> ResponseWriter" where
  "rw_Write w bs =
     (let w1 = (if wStatus w = None then w\<lparr>wStatus := Some http_StatusOK\<rparr> else w)
      in if bs = [] then w1
         else case wStatus w1 of
                None \<Rightarrow> w1
              | Some status \<Rightarrow>
                  if bodyAllowedForStatus status then w1\<lparr>wBody := wBody w1 @ bs\<rparr> else w1)"

text \<open>
  \<open>http.Error(w, msg, code)\<close>: a plain-text reply, the message followed by a newline.
  Both handlers call it on a writer whose header they have not touched yet.
\<close>

definition http_Error :: "ResponseWriter \<Rightarrow> string \<Rightarrow> int \<Rightarrow> panic + ResponseWriter" where
  "http_Error w msg code =
     (case rw_WriteHeader
             (w\<lparr>wHeader := Header_Set
                    (Header_Set (wHeader w) ''Content-Type'' ''text/plain; charset=utf-8'')
                    ''X-Content-Type-Options'' ''nosniff''\<rparr>)
             code of
        Inl p \<Rightarrow> Inl p
      | Inr w' \<Rightarrow> Inr (rw_Write w' (msg @ [CHR 0x0A])))"

section \<open>URLs\<close>

text \<open>
  \<open>r.URL\<close> is a \<open>url.URL\<close>. The fields are those the server fills for a request:
  \<open>Path\<close> is the decoded path and \<open>RawPath\<close> the path as it was sent, kept only when it
  is not the default encoding of \<open>Path\<close>; \<open>ForceQuery\<close> records a bare \<open>?\<close> at the end;
  \<open>Scheme\<close> and \<open>Host\<close> are empty unless the request line carried an absolute URL. A
  request URL has no user information and no separately recorded raw fragment, and
  \<open>OmitHost\<close> is not set.
\<close>

record url_URL =
  Scheme :: string
  Opaque :: string
  Host :: string
  Path :: string
  RawPath :: string
  ForceQuery :: bool
  RawQuery :: string
  Fragment :: string

text \<open>The encoding modes of \<open>net/url\<close> that rendering such a URL goes through.\<close>

datatype encoding = encodePath | encodeHost | encodeFragment

definition alphanum :: "char \<Rightarrow> bool" where
  "alphanum c \<longleftrightarrow>
     c \<in> set ''abcdefghijklmnopqrstuvwxyzABCDEFGHIJKLMNOPQRSTUVWXYZ0123456789''"

text \<open>\<open>shouldEscape(c, mode)\<close>, case by case as in \<open>net/url\<close>.\<close>

definition shouldEscape :: "char \<Rightarrow> encoding \<Rightarrow> bool" where
  "shouldEscape c mode =
     (if alphanum c then False
      else if mode = encodeHost \<and>
              c \<in> set ([CHR ''!'', CHR ''$'', CHR ''&'', CHR 0x27, CHR ''('', CHR '')'', CHR ''*'',
                        CHR ''+'', CHR '','', CHR '';'', CHR ''='', CHR '':'', CHR ''['', CHR '']'',
                        CHR ''<'', CHR ''>'', CHR 0x22])
      then False
      else if c \<in> set ''-_.~'' then False
      else if c \<in> set ''$&+,/:;=?@''
      then (case mode of
              encodePath \<Rightarrow> c = CHR ''?''
            | encodeFragment \<Rightarrow> False
            | encodeHost \<Rightarrow> True)
      else if mode = encodeFragment \<and> c \<in> set ''!()*'' then False
      else True)"

definition upperhex :: string where
  "upperhex = ''0123456789ABCDEF''"

text \<open>
  \<open>escape(s, mode)\<close>: every byte that should be escaped becomes \<open>%\<close> and its two
  upper-case hex digits.
\<close>

definition escape_byte :: "encoding \<Rightarrow> char \<Rightarrow> string" where
  "escape_byte mode c =
     (if shouldEscape c mode
      then [CHR ''%'', upperhex ! ((of_char c :: nat) div 16), upperhex ! ((of_char c :: nat) mod 16)]
      else [c])"

definition escape :: "string \<Rightarrow> encoding \<Rightarrow> string" where
  "escape s mode = concat (map (escape_byte mode) s)"

definition ishex :: "char \<Rightarrow> bool" where
  "ishex c \<longleftrightarrow> c \<in> set ''0123456789abcdefABCDEF''"

text \<open>\<open>unhex(c)\<close>; it is called on hex digits only and panics on any other byte.\<close>

definition unhex :: "char \<Rightarrow> nat option" where
  "unhex c =
     (let n = (of_char c :: nat) in
      if 48 \<le> n \<and> n \<le> 57 then Some (n - 48)
      else if 97 \<le> n \<and> n \<le> 102 then Some (n - 97 + 10)
      else if 65 \<le> n \<and> n \<le> 70 then Some (n - 65 + 10)
      else None)"

text \<open>
  \<open>unescape(s, encodePath)\<close>: \<open>None\<close> is the \<open>EscapeError\<close> for a \<open>%\<close> that is not
  followed by two hex digits.
\<close>

fun unescape_path :: "string \<Rightarrow> string option" where
  "unescape_path [] = Some []"
| "unescape_path [c] = (if c = CHR ''%'' then None else Some [c])"
| "unescape_path [c, d] =
     (if c = CHR ''%'' then None else map_option ((#) c) (unescape_path [d]))"
| "unescape_path (c # h1 # h2 # s) =
     (if c = CHR ''%''
      then (if ishex h1 \<and> ishex h2
            then (case (unhex h1, unhex h2) of
                    (Some a, Some b) \<Rightarrow> map_option ((#) (char_of (a * 16 + b))) (unescape_path s)
                  | _ \<Rightarrow> None)
            else None)
      else map_option ((#) c) (unescape_path (h1 # h2 # s)))"

text \<open>\<open>validEncoded(s, encodePath)\<close>\<close>

definition validEncoded_path :: "string \<Rightarrow> bool" where
  "validEncoded_path s =
     list_all
       (\<lambda>c. if c \<in> set ([CHR ''!'', CHR ''$'', CHR ''&'', CHR 0x27, CHR ''('', CHR '')'',
                            CHR ''*'', CHR ''+'', CHR '','', CHR '';'', CHR ''='', CHR '':'',
                            CHR ''@'', CHR ''['', CHR '']'', CHR ''%''])
            then True
            else if shouldEscape c encodePath then False else True)
       s"

text \<open>
  \<open>u.EscapedPath()\<close>: the raw path when it is a valid encoding of \<open>Path\<close>, else the
  default encoding of \<open>Path\<close>.
\<close>

definition EscapedPath :: "url_URL \<Rightarrow> string" where
  "EscapedPath u =
     (if RawPath u \<noteq> [] \<and> validEncoded_path (RawPath u)
         \<and> unescape_path (RawPath u) = Some (Path u)
      then RawPath u
      else if Path u = ''*'' then ''*''
      else escape (Path u) encodePath)"

text \<open>
  \<open>u.String()\<close>, in the order \<open>net/url\<close> writes its buffer: scheme; opaque part, or
  else the authority, a \<open>/\<close> before a relative path that follows a host, \<open>./\<close> before a
  first segment with a colon when nothing precedes it, and the escaped path; then the
  query; then the fragment.
\<close>

definition url_String :: "url_URL \<Rightarrow> string" where
  "url_String u =
     (let scheme = (if Scheme u \<noteq> [] then Scheme u @ '':'' else []);
          hier =
            (if Opaque u \<noteq> [] then scheme @ Opaque u
             else
               (let authority =
                      (if Scheme u \<noteq> [] \<or> Host u \<noteq> []
                       then (if Host u \<noteq> [] \<or> Path u \<noteq> [] then ''//'' else [])
                            @ (if Host u \<noteq> [] then escape (Host u) encodeHost else [])
                       else []);
                    path = EscapedPath u;
                    slash =
                      (if path \<noteq> [] \<and> hd path \<noteq> CHR ''/'' \<and> Host u \<noteq> [] then ''/'' else []);
                    buf = scheme @ authority @ slash;
                    dot =
                      (if buf = [] \<and> CHR '':'' \<in> set (takeWhile (\<lambda>c. c \<noteq> CHR ''/'') path)
                       then ''./'' else [])
                in buf @ dot @ path))
      in hier
         @ (if ForceQuery u \<or> RawQuery u \<noteq> [] then ''?'' @ RawQuery u else [])
         @ (if Fragment u \<noteq> [] then ''#'' @ escape (Fragment u) encodeFragment else []))"

section \<open>Requests and responses\<close>

record http_Request =
  Method :: string
  URL :: url_URL
  Header :: http_Header
  Body :: string

text \<open>
  A response body is a stream: \<open>io.ReadAll\<close> returns the bytes it could read and the error
  that stopped it, if any.
\<close>

datatype io_Reader = Reader string "string option"

fun io_ReadAll :: "io_Reader \<Rightarrow> string \<times> string option" where
  "io_ReadAll (Reader bs err) = (bs, err)"

record http_Response =
  StatusCode :: int
  RespHeader :: http_Header
  RespBody :: io_Reader

section \<open>The Redis-backed handler (handleRequest)\<close>

text \<open>
  \<open>handleRequest\<close> of the Redis-backed \<open>main\<close> package. Its surroundings are inputs:
  \<open>originServer\<close> is the global set from the \<open>--origin\<close> flag, \<open>cache_Get\<close> is the reply
  of \<open>cache.GetClient().Get(cache.Ctx, key).Result()\<close> (\<open>Inl\<close> the error, \<open>redis.Nil\<close> or
  any other; \<open>Inr\<close> the stored string) and \<open>http_Get\<close> is the reply of \<open>http.Get\<close>. What
  the handler does to the world is returned: what it sent to the client (\<open>Inl\<close> when it
  panicked before sending anything, which makes the server drop the connection), the
  \<open>Set(ctx, key, value, expiration)\<close> commands it sent to Redis and the URLs it fetched.
\<close>

record handled =
  response :: "panic + ResponseWriter"
  cache_Set_calls :: "(string \<times> string \<times> Duration) list"
  origin_Get_calls :: "string list"

text \<open>
  \<open>targetURL := originServer + r.URL.Path\<close>: the URL the handler fetches, and the key
  it reads and writes in Redis.
\<close>

definition targetURL :: "string \<Rightarrow> http_Request \<Rightarrow> string" where
  "targetURL originServer r = originServer @ Path (URL r)"

definition handleRequest ::
  "string \<Rightarrow> (string \<Rightarrow> string + string) \<Rightarrow> (string \<Rightarrow> string + http_Response)
     \<Rightarrow> ResponseWriter \<Rightarrow> http_Request \<Rightarrow> handled" where
  "handleRequest originServer cache_Get http_Get w r =
     (case cache_Get (targetURL originServer r) of
        Inr cachedResponse \<Rightarrow>
          \<lparr>response = Inr (rw_Write w cachedResponse), cache_Set_calls = [],
           origin_Get_calls = []\<rparr>
      | Inl err \<Rightarrow>
          (case http_Get (targetURL originServer r) of
             Inl err' \<Rightarrow>
               \<lparr>response = http_Error w ''Error contacting origin server'' http_StatusBadGateway,
                cache_Set_calls = [], origin_Get_calls = [targetURL originServer r]\<rparr>
           | Inr resp \<Rightarrow>
               (case rw_WriteHeader (w\<lparr>wHeader := copy_Header (wHeader w) (RespHeader resp)\<rparr>)
                       (StatusCode resp) of
                  Inl p \<Rightarrow>
                    \<lparr>response = Inl p, cache_Set_calls = [],
                     origin_Get_calls = [targetURL originServer r]\<rparr>
                | Inr w2 \<Rightarrow>
                    (let body = fst (io_ReadAll (RespBody resp))
                     in \<lparr>response = Inr (rw_Write w2 body),
                         cache_Set_calls = [(targetURL originServer r, body, 300 * time_Second)],
                         origin_Get_calls = [targetURL originServer r]\<rparr>))))"

section \<open>The in-memory proxy (README, step 3)\<close>

text \<open>
  \<open>type ProxyServer struct { cache *Cache; backendURL string; client *http.Client }\<close>.
  The client is the standard one with a timeout of ten seconds; what it and
  \<open>http.NewRequest\<close> answer is an input of the handler: \<open>http_NewRequest\<close> is
  \<open>http.NewRequest(method, url, body)\<close> and \<open>client_Do\<close> is \<open>p.client.Do(req)\<close>.
\<close>

record ProxyServer =
  cache :: Cache
  backendURL :: string

record out_Request =
  oMethod :: string
  oURL :: string
  oHeader :: http_Header
  oBody :: string

record http_env =
  http_NewRequest :: "string \<Rightarrow> string \<Rightarrow> string \<Rightarrow> string + out_Request"
  client_Do :: "out_Request \<Rightarrow> string + http_Response"

definition NewProxyServer :: "string \<Rightarrow> int \<Rightarrow> Duration \<Rightarrow> string + ProxyServer" where
  "NewProxyServer url cacheSize cacheTTL =
     (case NewCache cacheSize cacheTTL of
        Inl err \<Rightarrow> Inl err
      | Inr c \<Rightarrow> Inr \<lparr>cache = c, backendURL = url\<rparr>)"

text \<open>\<open>cacheKey := r.URL.String()\<close>\<close>

definition cacheKey :: "http_Request \<Rightarrow> string" where
  "cacheKey r = url_String (URL r)"

text \<open>
  \<open>func (p *ProxyServer) ServeHTTP(w, r)\<close>. The clock is read twice, by \<open>Get\<close> at
  \<open>t_get\<close> and, after the backend has answered, by \<open>Set\<close> at \<open>t_set\<close>. The second
  component is what was sent to the client, \<open>Inl\<close> when the handler panicked before
  sending anything.
\<close>

definition ServeHTTP ::
  "http_env \<Rightarrow> ProxyServer \<Rightarrow> Time \<Rightarrow> Time \<Rightarrow> ResponseWriter \<Rightarrow> http_Request
     \<Rightarrow> ProxyServer \<times> (panic + ResponseWriter)" where
  "ServeHTTP env p t_get t_set w r =
     (case Cache_Get (cache p) t_get (cacheKey r) of
        (c1, Some resp_bytes) \<Rightarrow> (p\<lparr>cache := c1\<rparr>, Inr (rw_Write w resp_bytes))
      | (c1, None) \<Rightarrow>
          (let p1 = p\<lparr>cache := c1\<rparr>;
               target = backendURL p @ url_String (URL r)
           in case http_NewRequest env (Method r) target (Body r) of
                Inl err \<Rightarrow>
                  (p1, http_Error w ''Error creating request'' http_StatusInternalServerError)
              | Inr req0 \<Rightarrow>
                  (let req = req0\<lparr>oHeader := copy_Header (oHeader req0) (Header r)\<rparr>
                   in case client_Do env req of
                        Inl err \<Rightarrow>
                          (p1, http_Error w ''Error forwarding request'' http_StatusBadGateway)
                      | Inr resp \<Rightarrow>
                          (case io_ReadAll (RespBody resp) of
                             (body, Some err) \<Rightarrow>
                               (p1, http_Error w ''Error reading response''
                                      http_StatusInternalServerError)
                           | (body, None) \<Rightarrow>
                               (p1\<lparr>cache := Cache_Set c1 t_set (cacheKey r) body\<rparr>,
                                case rw_WriteHeader
                                       (w\<lparr>wHeader := copy_Header (wHeader w) (RespHeader resp)\<rparr>)
                                       (StatusCode resp) of
                                  Inl pn \<Rightarrow> Inl pn
                                | Inr w2 \<Rightarrow> Inr (rw_Write w2 body))))))"

section \<open>Notions used in the statements\<close>

text \<open>The entry held under a key, if any, whatever its expiry.\<close>

definition Cache_entry :: "Cache \<Rightarrow> string \<Rightarrow> CacheEntry option" where
  "Cache_entry c k = map_of (lru_items (lru c)) k"

text \<open>A store that was built with a positive capacity and holds no more than that.\<close>

definition within_capacity :: "Cache \<Rightarrow> bool" where
  "within_capacity c \<longleftrightarrow> 0 < lru_size (lru c) \<and> int (Cache_Len c) \<le> lru_size (lru c)"

text \<open>
  One \<open>Set\<close> call of a run is a clock reading, a key and a response: its key, the entry
  it stores under a given time-to-live, and the pair the recency list then holds.
\<close>

fun key_of :: "Time \<times> string \<times> string \<Rightarrow> string" where
  "key_of (now, key, val) = key"

fun entry_of :: "Duration \<Rightarrow> Time \<times> string \<times> string \<Rightarrow> CacheEntry" where
  "entry_of d (now, key, val) = \<lparr>Response = val, Expires = time_Add now d\<rparr>"

definition stored :: "Duration \<Rightarrow> Time \<times> string \<times> string \<Rightarrow> string \<times> CacheEntry" where
  "stored d op = (key_of op, entry_of d op)"

text \<open>
  A status that \<open>WriteHeader\<close> accepts and writes as the status of the response: three
  digits from 200 up, or 101. (The client never hands back another informational
  status: it reads on to the final response.)
\<close>

definition final_status :: "int \<Rightarrow> bool" where
  "final_status code \<longleftrightarrow>
     (200 \<le> code \<and> code \<le> 999) \<or> code = http_StatusSwitchingProtocols"


subsection \<open>Surroundings for the worked examples\<close>

text \<open>
  Concrete answers of the world outside the handlers, for the examples below: a Redis
  that holds nothing (every \<open>Get\<close> answers \<open>redis.Nil\<close>), one that holds a single key,
  one that cannot be reached; an origin that answers every fetch with one response, and
  one that is down; plain inbound \<open>GET\<close> requests in origin form; and a standard library
  that builds every outbound request and a client with one answer.
\<close>

definition redis_Nil :: string where
  "redis_Nil = ''redis: nil''"

definition redis_empty :: "string \<Rightarrow> string + string" where
  "redis_empty key = Inl redis_Nil"

definition redis_holding :: "string \<Rightarrow> string \<Rightarrow> string \<Rightarrow> string + string" where
  "redis_holding k v key = (if key = k then Inr v else Inl redis_Nil)"

definition redis_down :: "string \<Rightarrow> string + string" where
  "redis_down key = Inl ''dial tcp: connection refused''"

definition origin_serving :: "http_Response \<Rightarrow> string \<Rightarrow> string + http_Response" where
  "origin_serving resp url = Inr resp"

definition origin_down :: "string \<Rightarrow> string + http_Response" where
  "origin_down url = Inl ''dial tcp: connection refused''"

definition GET :: "string \<Rightarrow> string \<Rightarrow> http_Request" where
  "GET path query =
     \<lparr>Method = ''GET'',
      URL = \<lparr>Scheme = [], Opaque = [], Host = [], Path = path, RawPath = [],
             ForceQuery = False, RawQuery = query, Fragment = []\<rparr>,
      Header = [], Body = []\<rparr>"

definition plain_NewRequest :: "string \<Rightarrow> string \<Rightarrow> string \<Rightarrow> string + out_Request" where
  "plain_NewRequest method url body =
     Inr \<lparr>oMethod = method, oURL = url, oHeader = [], oBody = body\<rparr>"

definition client_answering :: "string + http_Response \<Rightarrow> out_Request \<Rightarrow> string + http_Response" where
  "client_answering answer req = answer"

definition plain_env :: "string + http_Response \<Rightarrow> http_env" where
  "plain_env answer =
     \<lparr>http_NewRequest = plain_NewRequest, client_Do = client_answering answer\<rparr>"

section \<open>The capacity of the store\<close>

lemma lru_Add_size: "lru_size (lru_Add l k v) = lru_size l"
  by (simp add: lru_Add_def)

lemma filter_key_shorter:
  "map_of xs k \<noteq> None \<Longrightarrow> length (filter (\<lambda>p. fst p \<noteq> k) xs) < length xs"
  by (induction xs) (auto simp: less_Suc_eq_le)

lemma lru_Add_within:
  assumes "0 < lru_size l" and "int (length (lru_items l)) \<le> lru_size l"
  shows "int (length (lru_items (lru_Add l k v))) \<le> lru_size l"
proof (cases "lru_Contains l k")
  case True
  then have "length (filter (\<lambda>p. fst p \<noteq> k) (lru_items l)) < length (lru_items l)"
    by (simp add: lru_Contains_def filter_key_shorter)
  with True assms show ?thesis by (simp add: lru_Add_def)
next
  case False
  with assms show ?thesis by (auto simp: lru_Add_def)
qed

lemma Cache_Set_within: "within_capacity c \<Longrightarrow> within_capacity (Cache_Set c now k v)"
  by (simp add: within_capacity_def Cache_Set_def Cache_Len_def lru_Len_def
      lru_Add_size lru_Add_within)

lemma Cache_Set_lru_size: "lru_size (lru (Cache_Set c now k v)) = lru_size (lru c)"
  by (simp add: Cache_Set_def lru_Add_size)

lemma Cache_Set_ttl: "ttl (Cache_Set c now k v) = ttl c"
  by (simp add: Cache_Set_def)

lemma Cache_Set_all_within:
  "within_capacity c \<Longrightarrow> within_capacity (Cache_Set_all c ops)"
  by (induction c ops rule: Cache_Set_all.induct) (simp_all add: Cache_Set_within)

lemma Cache_Set_all_lru_size: "lru_size (lru (Cache_Set_all c ops)) = lru_size (lru c)"
  by (induction c ops rule: Cache_Set_all.induct) (simp_all add: Cache_Set_lru_size)

lemma NewCache_Inr:
  "NewCache n d = Inr c \<Longrightarrow>
     0 < n \<and> c = \<lparr>lru = \<lparr>lru_size = n, lru_items = []\<rparr>, csize = n, ttl = d\<rparr>"
  by (auto simp: NewCache_def lru_New_def split: if_splits)

text \<open>
  Claim C3. A store that \<open>NewCache\<close> built with capacity \<open>C\<close> holds at most \<open>C\<close> entries
  after any finite run of \<open>Set\<close> calls, whatever their keys, responses and clock readings.
\<close>

theorem capacity_never_exceeded:
  assumes "NewCache C d = Inr c"
  shows "int (Cache_Len (Cache_Set_all c ops)) \<le> C"
proof -
  from assms have c: "0 < C" "c = \<lparr>lru = \<lparr>lru_size = C, lru_items = []\<rparr>, csize = C, ttl = d\<rparr>"
    using NewCache_Inr by blast+
  then have "within_capacity c"
    by (simp add: within_capacity_def Cache_Len_def lru_Len_def)
  then have "within_capacity (Cache_Set_all c ops)"
    by (rule Cache_Set_all_within)
  moreover have "lru_size (lru (Cache_Set_all c ops)) = C"
    using c by (simp add: Cache_Set_all_lru_size)
  ultimately show ?thesis by (simp add: within_capacity_def)
qed

theorem capacity_never_exceeded_witness:
  "NewCache 2 5 = Inr \<lparr>lru = \<lparr>lru_size = 2, lru_items = []\<rparr>, csize = 2, ttl = 5\<rparr>
   \<and> int (Cache_Len (Cache_Set_all \<lparr>lru = \<lparr>lru_size = 2, lru_items = []\<rparr>, csize = 2, ttl = 5\<rparr>
        [(0, ''a'', ''x''), (1, ''b'', ''y''), (2, ''c'', ''z'')])) \<le> 2"
proof -
  have h: "NewCache 2 5 = Inr \<lparr>lru = \<lparr>lru_size = 2, lru_items = []\<rparr>, csize = 2, ttl = 5\<rparr>"
    by (simp add: NewCache_def lru_New_def)
  from capacity_never_exceeded [OF h] h show ?thesis by blast
qed

section \<open>Expiry\<close>

lemma lru_Add_front:
  "\<exists>rest. lru_items (lru_Add l k v) = (k, v) # rest \<and> k \<notin> fst ` set rest"
proof (cases "lru_Contains l k")
  case True
  then show ?thesis by (auto simp: lru_Add_def)
next
  case False
  then have "k \<notin> fst ` set (lru_items l)"
    by (simp add: lru_Contains_def map_of_eq_None_iff)
  moreover have "set (butlast (lru_items l)) \<subseteq> set (lru_items l)"
    by (auto dest: in_set_butlastD)
  ultimately show ?thesis using False by (auto simp: lru_Add_def)
qed

lemma Cache_Set_entry:
  "Cache_entry (Cache_Set c t0 k v) k = Some \<lparr>Response = v, Expires = t0 + ttl c\<rparr>"
proof -
  obtain rest where "lru_items (lru_Add (lru c) k \<lparr>Response = v, Expires = t0 + ttl c\<rparr>)
      = (k, \<lparr>Response = v, Expires = t0 + ttl c\<rparr>) # rest"
    using lru_Add_front by blast
  then show ?thesis by (simp add: Cache_entry_def Cache_Set_def time_Add_def)
qed

lemma Cache_Get_fresh:
  assumes "Cache_entry c k = Some e" and "t \<le> Expires e"
  shows "Cache_Get c t k =
           (c\<lparr>lru := (lru c)\<lparr>lru_items := (k, e) # filter (\<lambda>p. fst p \<noteq> k) (lru_items (lru c))\<rparr>\<rparr>,
            Some (Response e))"
  using assms by (simp add: Cache_Get_def lru_Get_def Cache_entry_def time_After_def)

lemma Cache_Get_stale:
  assumes "Cache_entry c k = Some e" and "Expires e < t"
  shows "Cache_Get c t k =
           (c\<lparr>lru := (lru c)\<lparr>lru_items := filter (\<lambda>p. fst p \<noteq> k) (lru_items (lru c))\<rparr>\<rparr>, None)"
  using assms by (simp add: Cache_Get_def lru_Get_def Cache_entry_def time_After_def lru_Remove_def)

lemma Cache_Get_absent:
  assumes "Cache_entry c k = None"
  shows "Cache_Get c t k = (c, None)"
  using assms by (simp add: Cache_Get_def lru_Get_def Cache_entry_def)

text \<open>
  Claim C2, as the code has it. \<open>Set\<close> at clock reading \<open>t0\<close> stores the entry with
  \<open>Expires = t0 + ttl\<close>. While a store holds an entry under a key, a \<open>Get\<close> at any
  time up to and including \<open>Expires\<close> returns the entry's response and keeps the entry
  (\<open>time.Now().After(entry.Expires)\<close> is strict); a \<open>Get\<close> at any time after
  \<open>Expires\<close> finds nothing and removes the entry from the store.
\<close>

theorem Get_expiry_boundary:
  "Cache_entry (Cache_Set c t0 k v) k = Some \<lparr>Response = v, Expires = t0 + ttl c\<rparr>
   \<and> (Cache_entry c' k = Some e \<and> t \<le> Expires e \<longrightarrow>
        snd (Cache_Get c' t k) = Some (Response e)
        \<and> Cache_entry (fst (Cache_Get c' t k)) k = Some e)
   \<and> (Cache_entry c' k = Some e \<and> Expires e < t \<longrightarrow>
        snd (Cache_Get c' t k) = None
        \<and> Cache_entry (fst (Cache_Get c' t k)) k = None
        \<and> k \<notin> set (Cache_Keys (fst (Cache_Get c' t k))))"
proof (intro conjI impI)
  show "Cache_entry (Cache_Set c t0 k v) k = Some \<lparr>Response = v, Expires = t0 + ttl c\<rparr>"
    by (rule Cache_Set_entry)
next
  assume a: "Cache_entry c' k = Some e \<and> t \<le> Expires e"
  then show "snd (Cache_Get c' t k) = Some (Response e)"
    by (simp add: Cache_Get_fresh)
  from a show "Cache_entry (fst (Cache_Get c' t k)) k = Some e"
    by (simp add: Cache_Get_fresh Cache_entry_def)
next
  assume a: "Cache_entry c' k = Some e \<and> Expires e < t"
  then show "snd (Cache_Get c' t k) = None"
    by (simp add: Cache_Get_stale)
  from a show "k \<notin> set (Cache_Keys (fst (Cache_Get c' t k)))"
    by (auto simp: Cache_Get_stale Cache_Keys_def lru_Keys_def)
  then show "Cache_entry (fst (Cache_Get c' t k)) k = None"
    by (simp add: Cache_entry_def Cache_Keys_def lru_Keys_def map_of_eq_None_iff)
qed

theorem Get_expiry_boundary_witness:
  "Cache_entry (Cache_Set \<lparr>lru = \<lparr>lru_size = 2, lru_items = []\<rparr>, csize = 2, ttl = 5\<rparr> 0 ''k'' ''v'') ''k''
     = Some \<lparr>Response = ''v'', Expires = 5\<rparr>
   \<and> snd (Cache_Get (Cache_Set \<lparr>lru = \<lparr>lru_size = 2, lru_items = []\<rparr>, csize = 2, ttl = 5\<rparr>
                       0 ''k'' ''v'') 5 ''k'') = Some ''v''
   \<and> snd (Cache_Get (Cache_Set \<lparr>lru = \<lparr>lru_size = 2, lru_items = []\<rparr>, csize = 2, ttl = 5\<rparr>
                       0 ''k'' ''v'') 6 ''k'') = None
   \<and> ''k'' \<notin> set (Cache_Keys (fst (Cache_Get
         (Cache_Set \<lparr>lru = \<lparr>lru_size = 2, lru_items = []\<rparr>, csize = 2, ttl = 5\<rparr> 0 ''k'' ''v'')
         6 ''k'')))"
proof -
  let ?c = "\<lparr>lru = \<lparr>lru_size = 2, lru_items = []\<rparr>, csize = 2, ttl = 5\<rparr>"
  let ?e = "\<lparr>Response = ''v'', Expires = 5\<rparr>"
  have h: "Cache_entry (Cache_Set ?c 0 ''k'' ''v'') ''k'' = Some ?e"
    using Get_expiry_boundary [of ?c 0 "''k''" "''v''"] by simp
  from h Get_expiry_boundary [of ?c 0 "''k''" "''v''" "Cache_Set ?c 0 ''k'' ''v''" ?e 5]
  have fresh: "snd (Cache_Get (Cache_Set ?c 0 ''k'' ''v'') 5 ''k'') = Some ''v''" by simp
  from h Get_expiry_boundary [of ?c 0 "''k''" "''v''" "Cache_Set ?c 0 ''k'' ''v''" ?e 6]
  have stale: "snd (Cache_Get (Cache_Set ?c 0 ''k'' ''v'') 6 ''k'') = None
     \<and> ''k'' \<notin> set (Cache_Keys (fst (Cache_Get (Cache_Set ?c 0 ''k'' ''v'') 6 ''k'')))" by simp
  from h fresh stale show ?thesis by simp
qed

text \<open>
  The claim as the spec words it puts the boundary on the other side: at the very instant
  \<open>Expires\<close> it expects a miss. The entry set at time 0 with a time-to-live of 5 is
  still served, and kept, at time 5.
\<close>

theorem Get_at_expiry_counterexample:
  "NewCache 2 5 = Inr \<lparr>lru = \<lparr>lru_size = 2, lru_items = []\<rparr>, csize = 2, ttl = 5\<rparr>
   \<and> Cache_Set \<lparr>lru = \<lparr>lru_size = 2, lru_items = []\<rparr>, csize = 2, ttl = 5\<rparr> 0 ''k'' ''v''
       = \<lparr>lru = \<lparr>lru_size = 2, lru_items = [(''k'', \<lparr>Response = ''v'', Expires = 5\<rparr>)]\<rparr>,
          csize = 2, ttl = 5\<rparr>
   \<and> (5::int) \<ge> 5
   \<and> Cache_Get \<lparr>lru = \<lparr>lru_size = 2, lru_items = [(''k'', \<lparr>Response = ''v'', Expires = 5\<rparr>)]\<rparr>,
          csize = 2, ttl = 5\<rparr> 5 ''k''
       = (\<lparr>lru = \<lparr>lru_size = 2, lru_items = [(''k'', \<lparr>Response = ''v'', Expires = 5\<rparr>)]\<rparr>,
          csize = 2, ttl = 5\<rparr>, Some ''v'')"
  by (simp add: NewCache_def lru_New_def Cache_Set_def lru_Add_def lru_Contains_def
      Cache_Get_def lru_Get_def time_Add_def time_After_def)
section \<open>Replacing a key\<close>

lemma filter_absent: "k \<notin> fst ` set xs \<Longrightarrow> filter (\<lambda>p. fst p \<noteq> k) xs = xs"
  by (induction xs) auto

lemma filter_present_distinct:
  "distinct (map fst xs) \<Longrightarrow> map_of xs k \<noteq> None \<Longrightarrow>
     Suc (length (filter (\<lambda>p. fst p \<noteq> k) xs)) = length xs"
proof (induction xs)
  case Nil
  then show ?case by simp
next
  case (Cons p xs)
  show ?case
  proof (cases "fst p = k")
    case True
    with Cons.prems have "k \<notin> fst ` set xs" by auto
    with True show ?thesis by (simp add: filter_absent)
  next
    case False
    with Cons show ?thesis by (cases p) auto
  qed
qed

lemma distinct_filter_keys:
  "distinct (map fst xs) \<Longrightarrow> distinct (map fst (filter (\<lambda>p. fst p \<noteq> k) xs))"
  by (induction xs) auto

lemma distinct_butlast_keys:
  "distinct (map fst xs) \<Longrightarrow> distinct (map fst (butlast xs))"
  by (metis distinct_butlast map_butlast)

lemma Cache_Set_distinct:
  assumes "distinct (Cache_Keys c)"
  shows "distinct (Cache_Keys (Cache_Set c now k v))"
proof (cases "lru_Contains (lru c) k")
  case True
  with assms show ?thesis
    by (auto simp: Cache_Keys_def lru_Keys_def Cache_Set_def lru_Add_def distinct_filter_keys)
next
  case False
  then have absent: "k \<notin> fst ` set (lru_items (lru c))"
    by (simp add: lru_Contains_def map_of_eq_None_iff)
  then have "k \<notin> fst ` set (butlast (lru_items (lru c)))"
    by (auto dest: in_set_butlastD)
  with False absent assms show ?thesis
    by (simp add: Cache_Keys_def lru_Keys_def Cache_Set_def lru_Add_def distinct_butlast_keys)
qed

lemma Cache_Get_distinct:
  assumes "distinct (Cache_Keys c)"
  shows "distinct (Cache_Keys (fst (Cache_Get c now k)))"
  using assms
  by (auto simp: Cache_Keys_def lru_Keys_def Cache_Get_def lru_Get_def lru_Remove_def
      distinct_filter_keys split: option.splits)

lemma NewCache_distinct: "NewCache n d = Inr c \<Longrightarrow> distinct (Cache_Keys c)"
  by (auto simp: Cache_Keys_def lru_Keys_def dest: NewCache_Inr)

text \<open>
  Claim C9. In a store whose keys are distinct (every store built by \<open>NewCache\<close>,
  \<open>Set\<close> and \<open>Get\<close> is, by the three lemmas above) and that already holds key
  \<open>k\<close>, \<open>Set(k, v1)\<close> followed by \<open>Set(k, v2)\<close> leaves the number of entries as
  it was, leaves exactly one entry under \<open>k\<close>, and a \<open>Get(k)\<close> that is not past the
  second call's expiry returns \<open>v2\<close>.
\<close>

theorem Set_twice_same_key:
  assumes "distinct (Cache_Keys c)" and "k \<in> set (Cache_Keys c)"
  shows "Cache_Len (Cache_Set c t1 k v1) = Cache_Len c
     \<and> Cache_Len (Cache_Set (Cache_Set c t1 k v1) t2 k v2) = Cache_Len c
     \<and> length (filter (\<lambda>p. fst p = k) (lru_items (lru (Cache_Set (Cache_Set c t1 k v1) t2 k v2)))) = 1
     \<and> (t \<le> t2 + ttl c \<longrightarrow>
          snd (Cache_Get (Cache_Set (Cache_Set c t1 k v1) t2 k v2) t k) = Some v2)"
proof -
  let ?e1 = "\<lparr>Response = v1, Expires = time_Add t1 (ttl c)\<rparr>"
  let ?e2 = "\<lparr>Response = v2, Expires = time_Add t2 (ttl c)\<rparr>"
  let ?rest = "filter (\<lambda>p. fst p \<noteq> k) (lru_items (lru c))"
  from assms(2) have present: "lru_Contains (lru c) k"
    by (simp add: Cache_Keys_def lru_Keys_def lru_Contains_def map_of_eq_None_iff)
  then have c1: "lru_items (lru (Cache_Set c t1 k v1)) = (k, ?e1) # ?rest"
    by (simp add: Cache_Set_def lru_Add_def)
  then have "lru_Contains (lru (Cache_Set c t1 k v1)) k"
    by (simp add: lru_Contains_def)
  then have c2: "lru_items (lru (Cache_Set (Cache_Set c t1 k v1) t2 k v2)) = (k, ?e2) # ?rest"
    using c1 by (simp add: Cache_Set_def [of "Cache_Set c t1 k v1"] lru_Add_def Cache_Set_ttl)
  from assms(1) present have len: "Suc (length ?rest) = length (lru_items (lru c))"
    by (simp add: filter_present_distinct Cache_Keys_def lru_Keys_def lru_Contains_def)
  have one: "filter (\<lambda>p. fst p = k) ?rest = []"
    by (simp add: filter_empty_conv)
  have "Cache_entry (Cache_Set (Cache_Set c t1 k v1) t2 k v2) k = Some ?e2"
    using c2 by (simp add: Cache_entry_def)
  then have get: "t \<le> t2 + ttl c \<Longrightarrow>
      snd (Cache_Get (Cache_Set (Cache_Set c t1 k v1) t2 k v2) t k) = Some v2"
    by (simp add: Cache_Get_fresh time_Add_def)
  from c1 c2 len one get show ?thesis
    by (simp add: Cache_Len_def lru_Len_def)
qed
theorem Set_twice_same_key_witness:
  "distinct (Cache_Keys \<lparr>lru = \<lparr>lru_size = 2, lru_items =
        [(''b'', \<lparr>Response = ''y'', Expires = 6\<rparr>), (''a'', \<lparr>Response = ''x'', Expires = 5\<rparr>)]\<rparr>,
        csize = 2, ttl = 5\<rparr>)
   \<and> Cache_Len (Cache_Set (Cache_Set \<lparr>lru = \<lparr>lru_size = 2, lru_items =
        [(''b'', \<lparr>Response = ''y'', Expires = 6\<rparr>), (''a'', \<lparr>Response = ''x'', Expires = 5\<rparr>)]\<rparr>,
        csize = 2, ttl = 5\<rparr> 2 ''a'' ''v1'') 3 ''a'' ''v2'') = 2
   \<and> snd (Cache_Get (Cache_Set (Cache_Set \<lparr>lru = \<lparr>lru_size = 2, lru_items =
        [(''b'', \<lparr>Response = ''y'', Expires = 6\<rparr>), (''a'', \<lparr>Response = ''x'', Expires = 5\<rparr>)]\<rparr>,
        csize = 2, ttl = 5\<rparr> 2 ''a'' ''v1'') 3 ''a'' ''v2'') 8 ''a'') = Some ''v2''"
proof -
  let ?c = "\<lparr>lru = \<lparr>lru_size = 2, lru_items =
        [(''b'', \<lparr>Response = ''y'', Expires = 6\<rparr>), (''a'', \<lparr>Response = ''x'', Expires = 5\<rparr>)]\<rparr>,
        csize = 2, ttl = 5\<rparr>"
  have d: "distinct (Cache_Keys ?c)" and m: "''a'' \<in> set (Cache_Keys ?c)"
    by (simp_all add: Cache_Keys_def lru_Keys_def)
  have len: "Cache_Len ?c = 2"
    by (simp add: Cache_Len_def lru_Len_def)
  from Set_twice_same_key [OF d m, of 2 "''v1''" 3 "''v2''" 8] d len
  show ?thesis by simp
qed

section \<open>Eviction order\<close>

lemma map_fst_stored: "map fst (map (stored d) ops) = map key_of ops"
  by (simp add: stored_def comp_def)

lemma Cache_Set_all_fresh:
  assumes "distinct (map key_of ops)"
    and "set (map key_of ops) \<inter> set (Cache_Keys c) = {}"
    and "int (length (lru_items (lru c)) + length ops) \<le> lru_size (lru c)"
  shows "lru_items (lru (Cache_Set_all c ops)) = rev (map (stored (ttl c)) ops) @ lru_items (lru c)"
  using assms
proof (induction c ops rule: Cache_Set_all.induct)
  case (1 c)
  then show ?case by simp
next
  case (2 c now key val ops)
  let ?c' = "Cache_Set c now key val"
  from "2.prems"(2) have absent: "\<not> lru_Contains (lru c) key"
    by (simp add: Cache_Keys_def lru_Keys_def lru_Contains_def map_of_eq_None_iff)
  from "2.prems"(3) have room: "int (length (lru_items (lru c))) \<noteq> lru_size (lru c)"
    by simp
  from absent room have items: "lru_items (lru ?c') = stored (ttl c) (now, key, val) # lru_items (lru c)"
    by (simp add: Cache_Set_def lru_Add_def stored_def)
  have size: "lru_size (lru ?c') = lru_size (lru c)"
    by (rule Cache_Set_lru_size)
  have "lru_items (lru (Cache_Set_all ?c' ops)) = rev (map (stored (ttl ?c')) ops) @ lru_items (lru ?c')"
  proof (rule "2.IH")
    show "distinct (map key_of ops)" using "2.prems"(1) by simp
    show "set (map key_of ops) \<inter> set (Cache_Keys ?c') = {}"
      using "2.prems"(1,2) items by (auto simp: Cache_Keys_def lru_Keys_def stored_def)
    show "int (length (lru_items (lru ?c')) + length ops) \<le> lru_size (lru ?c')"
      using "2.prems"(3) items size by simp
  qed
  then show ?case using items by (simp add: Cache_Set_ttl)
qed

lemma map_of_snoc: "k \<notin> fst ` set xs \<Longrightarrow> map_of (xs @ [(k, e)]) k = Some e"
  by (induction xs) auto

lemma Cache_Get_hit_fresh:
  assumes "Cache_entry c k = Some e" and "snd (Cache_Get c t k) \<noteq> None"
  shows "t \<le> Expires e"
proof (rule ccontr)
  assume "\<not> t \<le> Expires e"
  then have "Expires e < t" by simp
  with assms(1) have "snd (Cache_Get c t k) = None" by (simp add: Cache_Get_stale)
  with assms(2) show False by simp
qed

text \<open>
  Claim C4, for a capacity of at least two. In a store built with capacity \<open>N\<close>,
  after \<open>Set\<close> of \<open>N\<close> distinct keys in order, a \<open>Get\<close> that finds the first key,
  and \<open>Set\<close> of one more new key, the store holds the new key, then the first key, then
  the others from the latest back to the third: the second key is the one evicted and
  the first key is still there.
\<close>

theorem eviction_after_promotion:
  assumes new: "NewCache N d = Inr c0"
    and two: "2 \<le> N"
    and len: "int (length ops) = N"
    and dist: "distinct (map key_of ops)"
    and fresh: "k' \<notin> set (map key_of ops)"
    and hit: "snd (Cache_Get (Cache_Set_all c0 ops) tg (key_of (ops ! 0))) \<noteq> None"
  shows "Cache_Keys (Cache_Set (fst (Cache_Get (Cache_Set_all c0 ops) tg (key_of (ops ! 0)))) t' k' v')
           = k' # key_of (ops ! 0) # rev (drop 2 (map key_of ops))
         \<and> key_of (ops ! 1) \<notin> set (Cache_Keys (Cache_Set
               (fst (Cache_Get (Cache_Set_all c0 ops) tg (key_of (ops ! 0)))) t' k' v'))
         \<and> key_of (ops ! 0) \<in> set (Cache_Keys (Cache_Set
               (fst (Cache_Get (Cache_Set_all c0 ops) tg (key_of (ops ! 0)))) t' k' v'))"
proof -
  from new have c0: "c0 = \<lparr>lru = \<lparr>lru_size = N, lru_items = []\<rparr>, csize = N, ttl = d\<rparr>"
    using NewCache_Inr by blast
  from two len obtain o1 o2 rest where ops: "ops = o1 # o2 # rest"
    by (cases ops; cases "tl ops") auto
  let ?k1 = "key_of o1" and ?k2 = "key_of o2"
  let ?c1 = "Cache_Set_all c0 ops"
  let ?tail = "rev (map (stored d) rest)"
  have "lru_items (lru ?c1) = rev (map (stored (ttl c0)) ops) @ lru_items (lru c0)"
    by (rule Cache_Set_all_fresh) (use dist len c0 in \<open>simp_all add: Cache_Keys_def lru_Keys_def\<close>)
  then have items1: "lru_items (lru ?c1) = (?tail @ [(?k2, entry_of d o2)]) @ [(?k1, entry_of d o1)]"
    by (simp add: ops c0 stored_def)
  have size1: "lru_size (lru ?c1) = N"
    by (simp add: Cache_Set_all_lru_size c0)
  have keys_tail: "map fst ?tail = rev (map key_of rest)"
    by (induction rest) (simp_all add: stored_def)
  then have set_tail: "fst ` set ?tail = set (map key_of rest)"
    by (metis set_map set_rev)
  from dist set_tail have k1_tail: "?k1 \<notin> fst ` set ?tail" and k12: "?k1 \<noteq> ?k2"
    and k2_tail: "?k2 \<notin> fst ` set ?tail"
    by (auto simp: ops)
  from k1_tail k12 have entry1: "Cache_entry ?c1 ?k1 = Some (entry_of d o1)"
    unfolding Cache_entry_def items1 by (intro map_of_snoc) auto
  with hit have "tg \<le> Expires (entry_of d o1)"
    by (intro Cache_Get_hit_fresh [of ?c1 ?k1]) (simp_all add: ops)
  with entry1 have get: "Cache_Get ?c1 tg ?k1 =
      (?c1\<lparr>lru := (lru ?c1)\<lparr>lru_items := (?k1, entry_of d o1) #
          filter (\<lambda>p. fst p \<noteq> ?k1) (lru_items (lru ?c1))\<rparr>\<rparr>, Some (Response (entry_of d o1)))"
    by (rule Cache_Get_fresh)
  have filt: "filter (\<lambda>p. fst p \<noteq> ?k1) (lru_items (lru ?c1)) = ?tail @ [(?k2, entry_of d o2)]"
    using k1_tail k12 by (simp add: items1 filter_absent)
  let ?c2 = "fst (Cache_Get ?c1 tg ?k1)"
  have items2: "lru_items (lru ?c2) = (?k1, entry_of d o1) # ?tail @ [(?k2, entry_of d o2)]"
    by (simp add: get filt)
  have size2: "lru_size (lru ?c2) = N"
    by (simp add: get size1)
  from fresh have fr: "k' \<noteq> ?k1" "k' \<noteq> ?k2" "k' \<notin> set (map key_of rest)"
    by (simp_all add: ops)
  from len have lenr: "int (length rest) + 2 = N"
    by (simp add: ops)
  have "k' \<notin> fst ` set (lru_items (lru ?c2))"
    unfolding items2 using fr set_tail by auto
  then have absent: "\<not> lru_Contains (lru ?c2) k'"
    by (simp add: lru_Contains_def map_of_eq_None_iff)
  have full: "int (length (lru_items (lru ?c2))) = lru_size (lru ?c2)"
    using lenr by (simp add: items2 size2)
  have "lru_items (lru (Cache_Set ?c2 t' k' v')) =
      (k', \<lparr>Response = v', Expires = time_Add t' (ttl ?c2)\<rparr>) # butlast (lru_items (lru ?c2))"
    using absent full by (simp add: Cache_Set_def lru_Add_def)
  also have "butlast (lru_items (lru ?c2)) = (?k1, entry_of d o1) # ?tail"
    by (simp add: items2 butlast_append)
  finally have "Cache_Keys (Cache_Set ?c2 t' k' v') = k' # ?k1 # rev (map key_of rest)"
    by (simp add: Cache_Keys_def lru_Keys_def keys_tail del: rev_map)
  then have keys: "Cache_Keys (Cache_Set (fst (Cache_Get ?c1 tg (key_of (ops ! 0)))) t' k' v')
      = k' # key_of (ops ! 0) # rev (drop 2 (map key_of ops))"
    by (simp add: ops)
  moreover have "key_of (ops ! 1) \<notin> set (k' # key_of (ops ! 0) # rev (drop 2 (map key_of ops)))"
    using dist fresh by (auto simp: ops)
  ultimately show ?thesis by simp
qed
theorem eviction_after_promotion_witness:
  "Cache_Keys (Cache_Set (fst (Cache_Get
      (Cache_Set_all \<lparr>lru = \<lparr>lru_size = 2, lru_items = []\<rparr>, csize = 2, ttl = 5\<rparr>
         [(0, ''a'', ''x''), (1, ''b'', ''y'')]) 2 ''a'')) 3 ''c'' ''z'')
     = [''c'', ''a'']
   \<and> ''b'' \<notin> set (Cache_Keys (Cache_Set (fst (Cache_Get
      (Cache_Set_all \<lparr>lru = \<lparr>lru_size = 2, lru_items = []\<rparr>, csize = 2, ttl = 5\<rparr>
         [(0, ''a'', ''x''), (1, ''b'', ''y'')]) 2 ''a'')) 3 ''c'' ''z''))"
proof -
  let ?c0 = "\<lparr>lru = \<lparr>lru_size = 2, lru_items = []\<rparr>, csize = 2, ttl = 5\<rparr>"
  let ?ops = "[(0, ''a'', ''x''), (1, ''b'', ''y'')] :: (Time \<times> string \<times> string) list"
  have new: "NewCache 2 5 = Inr ?c0"
    by (simp add: NewCache_def lru_New_def)
  have hit: "snd (Cache_Get (Cache_Set_all ?c0 ?ops) 2 (key_of (?ops ! 0))) \<noteq> None"
    by (simp add: Cache_Set_def lru_Add_def lru_Contains_def Cache_Get_def lru_Get_def
        time_Add_def time_After_def)
  have "(2::int) \<le> 2" and "int (length ?ops) = 2" and "distinct (map key_of ?ops)"
    and "''c'' \<notin> set (map key_of ?ops)"
    by simp_all
  from eviction_after_promotion [OF new this hit, of 3 "''z''"]
  show ?thesis by simp
qed

text \<open>
  With capacity one there is no second key among those inserted: \<open>k1\<close> is at the
  same time the most and the least recently used entry, so inserting \<open>k2\<close> evicts
  \<open>k1\<close> itself and \<open>k2\<close> is what remains, against the claim as it is worded for
  every capacity.
\<close>

theorem eviction_capacity_one_counterexample:
  "NewCache 1 5 = Inr \<lparr>lru = \<lparr>lru_size = 1, lru_items = []\<rparr>, csize = 1, ttl = 5\<rparr>
   \<and> snd (Cache_Get (Cache_Set_all \<lparr>lru = \<lparr>lru_size = 1, lru_items = []\<rparr>, csize = 1, ttl = 5\<rparr>
          [(0, ''k1'', ''x'')]) 1 ''k1'') = Some ''x''
   \<and> Cache_Keys (Cache_Set (fst (Cache_Get
        (Cache_Set_all \<lparr>lru = \<lparr>lru_size = 1, lru_items = []\<rparr>, csize = 1, ttl = 5\<rparr>
          [(0, ''k1'', ''x'')]) 1 ''k1'')) 2 ''k2'' ''y'') = [''k2'']"
  by (simp add: NewCache_def lru_New_def Cache_Set_def lru_Add_def lru_Contains_def
      Cache_Get_def lru_Get_def time_Add_def time_After_def Cache_Keys_def lru_Keys_def)

section \<open>The handlers, branch by branch\<close>

lemmas writer_defs = rw_Write_def rw_WriteHeader_def http_Error_def new_ResponseWriter_def
  checkWriteHeaderCode_def bodyAllowedForStatus_def http_StatusOK_def http_StatusNoContent_def
  http_StatusNotModified_def http_StatusBadGateway_def http_StatusInternalServerError_def
  http_StatusSwitchingProtocols_def Let_def

lemmas url_defs = url_String_def EscapedPath_def escape_def escape_byte_def shouldEscape_def
  alphanum_def upperhex_def validEncoded_path_def ishex_def unhex_def Let_def

lemmas example_defs = redis_Nil_def redis_empty_def redis_holding_def redis_down_def
  origin_serving_def origin_down_def GET_def plain_NewRequest_def
  client_answering_def plain_env_def

lemmas cache_defs = NewCache_def lru_New_def Cache_Set_def lru_Add_def lru_Contains_def
  Cache_Get_def lru_Get_def lru_Remove_def time_Add_def time_After_def

lemma rw_Write_fresh:
  "rw_Write new_ResponseWriter b
     = \<lparr>wHeader = [], wInformational = [], wStatus = Some 200, wBody = b\<rparr>"
  by (simp add: writer_defs)

lemma rw_WriteHeader_final:
  "wStatus w = None \<Longrightarrow> final_status code \<Longrightarrow>
     rw_WriteHeader w code = Inr (w\<lparr>wStatus := Some code\<rparr>)"
  by (auto simp: final_status_def writer_defs)


lemma rw_Write_body:
  "rw_Write \<lparr>wHeader = h, wInformational = i, wStatus = Some code, wBody = []\<rparr> B
     = \<lparr>wHeader = h, wInformational = i, wStatus = Some code,
        wBody = (if bodyAllowedForStatus code then B else [])\<rparr>"
  by (simp add: rw_Write_def Let_def)

lemma rw_WriteHeader_refused:
  "wStatus w = None \<Longrightarrow> code < 100 \<or> 999 < code \<Longrightarrow>
     rw_WriteHeader w code = Inl (invalid_WriteHeader_code code)"
  by (simp add: writer_defs)

lemma http_Error_fresh:
  "http_Error new_ResponseWriter msg http_StatusBadGateway
     = Inr \<lparr>wHeader = [(''Content-Type'', [''text/plain; charset=utf-8'']),
                         (''X-Content-Type-Options'', [''nosniff''])],
            wInformational = [], wStatus = Some 502, wBody = msg @ [CHR 0x0A]\<rparr>"
  "http_Error new_ResponseWriter msg http_StatusInternalServerError
     = Inr \<lparr>wHeader = [(''Content-Type'', [''text/plain; charset=utf-8'']),
                         (''X-Content-Type-Options'', [''nosniff''])],
            wInformational = [], wStatus = Some 500, wBody = msg @ [CHR 0x0A]\<rparr>"
  by (simp_all add: writer_defs)

lemma Cache_Get_ttl: "ttl (fst (Cache_Get c t k)) = ttl c"
  by (simp add: Cache_Get_def split: prod.splits option.splits)

lemma Cache_Get_miss_entry:
  assumes "Cache_Get c t k = (c1, None)"
  shows "Cache_entry c1 k = None"
proof (cases "Cache_entry c k")
  case None
  with assms show ?thesis by (simp add: Cache_Get_absent)
next
  case (Some e)
  show ?thesis
  proof (cases "t \<le> Expires e")
    case True
    with Some assms show ?thesis by (simp add: Cache_Get_fresh)
  next
    case False
    with Some assms have "c1 = c\<lparr>lru := (lru c)\<lparr>lru_items :=
        filter (\<lambda>p. fst p \<noteq> k) (lru_items (lru c))\<rparr>\<rparr>"
      by (simp add: Cache_Get_stale)
    then show ?thesis
      by (auto simp: Cache_entry_def map_of_eq_None_iff)
  qed
qed

lemma ServeHTTP_hit:
  "Cache_Get (cache p) t_get (cacheKey r) = (c1, Some b) \<Longrightarrow>
     ServeHTTP env p t_get t_set w r = (p\<lparr>cache := c1\<rparr>, Inr (rw_Write w b))"
  by (simp add: ServeHTTP_def)

lemma ServeHTTP_forward_failed:
  assumes "Cache_Get (cache p) t_get (cacheKey r) = (c1, None)"
    and "http_NewRequest env (Method r) (backendURL p @ url_String (URL r)) (Body r) = Inr req0"
    and "client_Do env (req0\<lparr>oHeader := copy_Header (oHeader req0) (Header r)\<rparr>) = Inl err"
  shows "ServeHTTP env p t_get t_set w r =
           (p\<lparr>cache := c1\<rparr>, http_Error w ''Error forwarding request'' http_StatusBadGateway)"
  using assms by (simp add: ServeHTTP_def)

lemma ServeHTTP_read_failed:
  assumes "Cache_Get (cache p) t_get (cacheKey r) = (c1, None)"
    and "http_NewRequest env (Method r) (backendURL p @ url_String (URL r)) (Body r) = Inr req0"
    and "client_Do env (req0\<lparr>oHeader := copy_Header (oHeader req0) (Header r)\<rparr>) = Inr resp"
    and "RespBody resp = Reader bs (Some err)"
  shows "ServeHTTP env p t_get t_set w r =
           (p\<lparr>cache := c1\<rparr>, http_Error w ''Error reading response'' http_StatusInternalServerError)"
  using assms by (simp add: ServeHTTP_def)

lemma ServeHTTP_stores_body:
  assumes "Cache_Get (cache p) t_get (cacheKey r) = (c1, None)"
    and "http_NewRequest env (Method r) (backendURL p @ url_String (URL r)) (Body r) = Inr req0"
    and "client_Do env (req0\<lparr>oHeader := copy_Header (oHeader req0) (Header r)\<rparr>) = Inr resp"
    and "RespBody resp = Reader B None"
  shows "fst (ServeHTTP env p t_get t_set w r) = p\<lparr>cache := Cache_Set c1 t_set (cacheKey r) B\<rparr>"
  using assms by (simp add: ServeHTTP_def)

lemma ServeHTTP_served_from_origin:
  assumes "Cache_Get (cache p) t_get (cacheKey r) = (c1, None)"
    and "http_NewRequest env (Method r) (backendURL p @ url_String (URL r)) (Body r) = Inr req0"
    and "client_Do env (req0\<lparr>oHeader := copy_Header (oHeader req0) (Header r)\<rparr>) = Inr resp"
    and "RespBody resp = Reader B None"
    and "wStatus w = None" and "final_status (StatusCode resp)"
  shows "ServeHTTP env p t_get t_set w r =
           (p\<lparr>cache := Cache_Set c1 t_set (cacheKey r) B\<rparr>,
            Inr (rw_Write (w\<lparr>wHeader := copy_Header (wHeader w) (RespHeader resp),
                             wStatus := Some (StatusCode resp)\<rparr>) B))"
  using assms by (simp add: ServeHTTP_def rw_WriteHeader_final)

subsection \<open>Copying a header\<close>

text \<open>
  Copied into an empty header, a parsed header (one pair for each name, every name with at
  least one value) comes out as it was: the miss path sends the origin's header set.
\<close>

lemma Header_Add_new: "key \<notin> fst ` set h \<Longrightarrow> Header_Add h key v = h @ [(key, [v])]"
  by (induction h) auto

lemma Header_Add_last:
  "key \<notin> fst ` set h \<Longrightarrow> Header_Add (h @ [(key, vs)]) key v = h @ [(key, vs @ [v])]"
  by (induction h) auto

lemma fold_Header_Add_last:
  "key \<notin> fst ` set h \<Longrightarrow>
     fold (\<lambda>v h'. Header_Add h' key v) ws (h @ [(key, vs)]) = h @ [(key, vs @ ws)]"
  by (induction ws arbitrary: vs) (simp_all add: Header_Add_last)

lemma fold_Header_Add_values:
  assumes "key \<notin> fst ` set h" and "vs \<noteq> []"
  shows "fold (\<lambda>v h'. Header_Add h' key v) vs h = h @ [(key, vs)]"
proof (cases vs)
  case Nil
  with assms show ?thesis by simp
next
  case (Cons v ws)
  with assms(1) show ?thesis
    using fold_Header_Add_last [of key h ws "[v]"] by (simp add: Header_Add_new)
qed

lemma copy_Header_append:
  assumes "distinct (map fst src)" and "fst ` set src \<inter> fst ` set dst = {}"
    and "\<forall>p \<in> set src. snd p \<noteq> []"
  shows "copy_Header dst src = dst @ src"
  using assms
proof (induction src arbitrary: dst)
  case Nil
  then show ?case by (simp add: copy_Header_def)
next
  case (Cons p src)
  obtain k vs where p: "p = (k, vs)" by (cases p)
  from Cons.prems p have step: "fold (\<lambda>v h'. Header_Add h' k v) vs dst = dst @ [(k, vs)]"
    by (intro fold_Header_Add_values) auto
  have "copy_Header (dst @ [(k, vs)]) src = (dst @ [(k, vs)]) @ src"
    using Cons.prems p by (intro Cons.IH) auto
  with step p show ?case by (simp add: copy_Header_def)
qed

lemma copy_Header_fresh:
  "distinct (map fst src) \<Longrightarrow> \<forall>p \<in> set src. snd p \<noteq> [] \<Longrightarrow> copy_Header [] src = src"
  using copy_Header_append [of src "[]"] by simp

section \<open>Rendering a URL\<close>

















section \<open>What a cache hit sends\<close>

text \<open>
  Claim C1, as the code has it. An entry holds the response body and nothing else, so
  on a hit both handlers send exactly the stored bytes with a bare \<open>w.Write\<close>: to a
  fresh writer that is status 200 and no header of the origin's. The bytes are those of
  the origin response: on a miss the in-memory handler stores the body it has read under
  the request's key, and, when the origin's status is one the writer sends as the final
  status (101, or 200 to 999), it sends the origin's status and headers, and the body
  where that status allows one (not under 101, 204 and 304). Hit and miss therefore
  agree in the body, and in status and headers only when the origin answered 200 with
  no headers.
\<close>

theorem hit_replays_stored_body:
  "(Cache_entry (cache p) (cacheKey r) = Some e \<and> t_get \<le> Expires e \<longrightarrow>
      snd (ServeHTTP env p t_get t_set w r) = Inr (rw_Write w (Response e)))
   \<and> (cache_Get (targetURL originServer r) = Inr v \<longrightarrow>
      response (handleRequest originServer cache_Get http_Get w r) = Inr (rw_Write w v))
   \<and> rw_Write new_ResponseWriter b
        = \<lparr>wHeader = [], wInformational = [], wStatus = Some 200, wBody = b\<rparr>
   \<and> (Cache_Get (cache p) t_get (cacheKey r) = (c1, None)
       \<and> http_NewRequest env (Method r) (backendURL p @ url_String (URL r)) (Body r) = Inr req0
       \<and> client_Do env (req0\<lparr>oHeader := copy_Header (oHeader req0) (Header r)\<rparr>) = Inr resp
       \<and> RespBody resp = Reader B None \<longrightarrow>
      Cache_entry (cache (fst (ServeHTTP env p t_get t_set new_ResponseWriter r))) (cacheKey r)
        = Some \<lparr>Response = B, Expires = t_set + ttl (cache p)\<rparr>
      \<and> (final_status (StatusCode resp) \<longrightarrow>
          snd (ServeHTTP env p t_get t_set new_ResponseWriter r)
            = Inr \<lparr>wHeader = copy_Header [] (RespHeader resp), wInformational = [],
                   wStatus = Some (StatusCode resp),
                   wBody = (if bodyAllowedForStatus (StatusCode resp) then B else [])\<rparr>))"
proof (intro conjI impI)
  assume "Cache_entry (cache p) (cacheKey r) = Some e \<and> t_get \<le> Expires e"
  then show "snd (ServeHTTP env p t_get t_set w r) = Inr (rw_Write w (Response e))"
    by (simp add: ServeHTTP_def Cache_Get_fresh)
next
  assume "cache_Get (targetURL originServer r) = Inr v"
  then show "response (handleRequest originServer cache_Get http_Get w r) = Inr (rw_Write w v)"
    by (simp add: handleRequest_def)
next
  show "rw_Write new_ResponseWriter b
      = \<lparr>wHeader = [], wInformational = [], wStatus = Some 200, wBody = b\<rparr>"
    by (rule rw_Write_fresh)
next
  assume a: "Cache_Get (cache p) t_get (cacheKey r) = (c1, None)
       \<and> http_NewRequest env (Method r) (backendURL p @ url_String (URL r)) (Body r) = Inr req0
       \<and> client_Do env (req0\<lparr>oHeader := copy_Header (oHeader req0) (Header r)\<rparr>) = Inr resp
       \<and> RespBody resp = Reader B None"
  then have state: "fst (ServeHTTP env p t_get t_set new_ResponseWriter r)
      = p\<lparr>cache := Cache_Set c1 t_set (cacheKey r) B\<rparr>"
    by (intro ServeHTTP_stores_body) blast+
  from a have "ttl c1 = ttl (cache p)"
    using Cache_Get_ttl [of "cache p" t_get "cacheKey r"] by simp
  then show "Cache_entry (cache (fst (ServeHTTP env p t_get t_set new_ResponseWriter r))) (cacheKey r)
        = Some \<lparr>Response = B, Expires = t_set + ttl (cache p)\<rparr>"
    by (simp add: state Cache_Set_entry)
  assume final: "final_status (StatusCode resp)"
  have fresh: "wStatus new_ResponseWriter = None"
    by (simp add: new_ResponseWriter_def)
  from a fresh final have run: "ServeHTTP env p t_get t_set new_ResponseWriter r =
      (p\<lparr>cache := Cache_Set c1 t_set (cacheKey r) B\<rparr>,
       Inr (rw_Write (new_ResponseWriter\<lparr>wHeader :=
          copy_Header (wHeader new_ResponseWriter) (RespHeader resp),
          wStatus := Some (StatusCode resp)\<rparr>) B))"
    by (intro ServeHTTP_served_from_origin) blast+
  show "snd (ServeHTTP env p t_get t_set new_ResponseWriter r)
        = Inr \<lparr>wHeader = copy_Header [] (RespHeader resp), wInformational = [],
               wStatus = Some (StatusCode resp),
               wBody = (if bodyAllowedForStatus (StatusCode resp) then B else [])\<rparr>"
    unfolding run by (simp add: new_ResponseWriter_def rw_Write_body)
qed

theorem hit_replays_stored_body_witness:
  "snd (ServeHTTP
         (plain_env (Inr \<lparr>StatusCode = 404, RespHeader = [(''X-A'', [''1''])], RespBody = Reader ''nf'' None\<rparr>))
         \<lparr>cache = \<lparr>lru = \<lparr>lru_size = 2, lru_items = [(''/a?x=1'', \<lparr>Response = ''nf'', Expires = 6\<rparr>)]\<rparr>,
                   csize = 2, ttl = 5\<rparr>, backendURL = ''http://o''\<rparr>
         2 3 new_ResponseWriter (GET ''/a'' ''x=1''))
     = Inr \<lparr>wHeader = [], wInformational = [], wStatus = Some 200, wBody = ''nf''\<rparr>
   \<and> response (handleRequest ''http://o'' (redis_holding ''http://o/a'' ''nf'') origin_down
         new_ResponseWriter (GET ''/a'' ''x=1''))
     = Inr \<lparr>wHeader = [], wInformational = [], wStatus = Some 200, wBody = ''nf''\<rparr>
   \<and> snd (ServeHTTP
         (plain_env (Inr \<lparr>StatusCode = 404, RespHeader = [(''X-A'', [''1''])], RespBody = Reader ''nf'' None\<rparr>))
         \<lparr>cache = \<lparr>lru = \<lparr>lru_size = 2, lru_items = []\<rparr>, csize = 2, ttl = 5\<rparr>, backendURL = ''http://o''\<rparr>
         0 1 new_ResponseWriter (GET ''/a'' ''x=1''))
     = Inr \<lparr>wHeader = [(''X-A'', [''1''])], wInformational = [], wStatus = Some 404, wBody = ''nf''\<rparr>
   \<and> Cache_entry (cache (fst (ServeHTTP
         (plain_env (Inr \<lparr>StatusCode = 404, RespHeader = [(''X-A'', [''1''])], RespBody = Reader ''nf'' None\<rparr>))
         \<lparr>cache = \<lparr>lru = \<lparr>lru_size = 2, lru_items = []\<rparr>, csize = 2, ttl = 5\<rparr>, backendURL = ''http://o''\<rparr>
         0 1 new_ResponseWriter (GET ''/a'' ''x=1'')))) ''/a?x=1''
     = Some \<lparr>Response = ''nf'', Expires = 6\<rparr>"
proof -
  let ?resp = "\<lparr>StatusCode = 404, RespHeader = [(''X-A'', [''1''])], RespBody = Reader ''nf'' None\<rparr>"
  let ?env = "plain_env (Inr ?resp)"
  let ?c0 = "\<lparr>lru = \<lparr>lru_size = 2, lru_items = []\<rparr>, csize = 2, ttl = 5\<rparr>"
  let ?e = "\<lparr>Response = ''nf'', Expires = 6\<rparr>"
  let ?c1 = "\<lparr>lru = \<lparr>lru_size = 2, lru_items = [(''/a?x=1'', ?e)]\<rparr>, csize = 2, ttl = 5\<rparr>"
  let ?p0 = "\<lparr>cache = ?c0, backendURL = ''http://o''\<rparr>"
  let ?p1 = "\<lparr>cache = ?c1, backendURL = ''http://o''\<rparr>"
  let ?r = "GET ''/a'' ''x=1''"
  let ?req = "\<lparr>oMethod = ''GET'', oURL = ''http://o/a?x=1'', oHeader = [], oBody = []\<rparr>"
  have url: "url_String (URL ?r) = ''/a?x=1''"
    by (simp add: GET_def url_defs)
  have key: "cacheKey ?r = ''/a?x=1''"
    by (simp add: cacheKey_def url)
  have held: "Cache_entry (cache ?p1) (cacheKey ?r) = Some ?e \<and> 2 \<le> Expires ?e"
    by (simp add: key Cache_entry_def)
  have stored: "redis_holding ''http://o/a'' ''nf'' (targetURL ''http://o'' ?r) = Inr ''nf''"
    by (simp add: targetURL_def example_defs)
  have miss: "Cache_Get (cache ?p0) 0 (cacheKey ?r) = (?c0, None)
       \<and> http_NewRequest ?env (Method ?r) (backendURL ?p0 @ url_String (URL ?r)) (Body ?r) = Inr ?req
       \<and> client_Do ?env (?req\<lparr>oHeader := copy_Header (oHeader ?req) (Header ?r)\<rparr>) = Inr ?resp
       \<and> RespBody ?resp = Reader ''nf'' None"
    using url [unfolded GET_def, simplified]
    by (simp add: key Cache_Get_def lru_Get_def example_defs copy_Header_def)
  have final: "final_status (StatusCode ?resp) \<and> bodyAllowedForStatus (StatusCode ?resp)"
    by (simp add: final_status_def bodyAllowedForStatus_def http_StatusNoContent_def
        http_StatusNotModified_def)
  from held hit_replays_stored_body
    [where p = ?p1 and env = ?env and r = ?r and e = ?e and t_get = 2 and t_set = 3
       and w = new_ResponseWriter and b = "''nf''"]
  have a: "snd (ServeHTTP ?env ?p1 2 3 new_ResponseWriter ?r)
      = Inr \<lparr>wHeader = [], wInformational = [], wStatus = Some 200, wBody = ''nf''\<rparr>"
    by simp
  from stored hit_replays_stored_body
    [where cache_Get = "redis_holding ''http://o/a'' ''nf''" and originServer = "''http://o''"
       and r = ?r and v = "''nf''" and http_Get = origin_down and w = new_ResponseWriter
       and b = "''nf''"]
  have b: "response (handleRequest ''http://o'' (redis_holding ''http://o/a'' ''nf'') origin_down
         new_ResponseWriter ?r)
      = Inr \<lparr>wHeader = [], wInformational = [], wStatus = Some 200, wBody = ''nf''\<rparr>"
    by simp
  from miss final hit_replays_stored_body
    [where p = ?p0 and env = ?env and r = ?r and t_get = 0 and t_set = 1 and ?c1.0 = ?c0
       and ?req0.0 = ?req and resp = ?resp and B = "''nf''"]
  have c: "snd (ServeHTTP ?env ?p0 0 1 new_ResponseWriter ?r)
        = Inr \<lparr>wHeader = copy_Header [] (RespHeader ?resp), wInformational = [],
               wStatus = Some (StatusCode ?resp),
               wBody = (if bodyAllowedForStatus (StatusCode ?resp) then ''nf'' else [])\<rparr>
      \<and> Cache_entry (cache (fst (ServeHTTP ?env ?p0 0 1 new_ResponseWriter ?r))) (cacheKey ?r)
        = Some \<lparr>Response = ''nf'', Expires = 1 + ttl (cache ?p0)\<rparr>"
    by blast
  from a b c final show ?thesis
    by (simp add: key copy_Header_def)
qed

text \<open>
  The claim as the spec words it also wants the status and the header set replayed. An
  origin answer of 404 with a header \<open>X-A\<close> is sent as such on the miss, and as a
  200 without headers on the hit that follows within the time-to-live.
\<close>

theorem hit_drops_status_and_headers_counterexample:
  "NewProxyServer ''http://o'' 2 5 =
     Inr \<lparr>cache = \<lparr>lru = \<lparr>lru_size = 2, lru_items = []\<rparr>, csize = 2, ttl = 5\<rparr>, backendURL = ''http://o''\<rparr>
   \<and> snd (ServeHTTP
         (plain_env (Inr \<lparr>StatusCode = 404, RespHeader = [(''X-A'', [''1''])], RespBody = Reader ''nf'' None\<rparr>))
         \<lparr>cache = \<lparr>lru = \<lparr>lru_size = 2, lru_items = []\<rparr>, csize = 2, ttl = 5\<rparr>, backendURL = ''http://o''\<rparr>
         0 1 new_ResponseWriter (GET ''/a'' ''x=1''))
     = Inr \<lparr>wHeader = [(''X-A'', [''1''])], wInformational = [], wStatus = Some 404, wBody = ''nf''\<rparr>
   \<and> snd (ServeHTTP
         (plain_env (Inr \<lparr>StatusCode = 404, RespHeader = [(''X-A'', [''1''])], RespBody = Reader ''nf'' None\<rparr>))
         (fst (ServeHTTP
           (plain_env (Inr \<lparr>StatusCode = 404, RespHeader = [(''X-A'', [''1''])], RespBody = Reader ''nf'' None\<rparr>))
           \<lparr>cache = \<lparr>lru = \<lparr>lru_size = 2, lru_items = []\<rparr>, csize = 2, ttl = 5\<rparr>, backendURL = ''http://o''\<rparr>
           0 1 new_ResponseWriter (GET ''/a'' ''x=1'')))
         2 3 new_ResponseWriter (GET ''/a'' ''x=1''))
     = Inr \<lparr>wHeader = [], wInformational = [], wStatus = Some 200, wBody = ''nf''\<rparr>"
proof -
  have url: "url_String (URL (GET ''/a'' ''x=1'')) = ''/a?x=1''"
    by (simp add: GET_def url_defs)
  from url [unfolded GET_def, simplified] show ?thesis
    by (simp add: NewProxyServer_def ServeHTTP_def cacheKey_def cache_defs example_defs
        writer_defs copy_Header_def)
qed

section \<open>The cache key\<close>




section \<open>A fetch that fails\<close>

text \<open>
  Claim C6, as the code has it. When the fetch from the origin fails, both handlers answer
  502 and call no \<open>Set\<close>. In the in-memory handler the store is then what the lookup
  left: it holds no entry under the request's key, and it is the store as it was when
  the key was absent before. (When the lookup missed because the entry had expired, the
  lookup has removed that entry.) The Redis-backed handler sends Redis no \<open>Set\<close>.
\<close>

theorem failed_fetch_is_not_cached:
  "(Cache_Get (cache p) t_get (cacheKey r) = (c1, None)
    \<and> http_NewRequest env (Method r) (backendURL p @ url_String (URL r)) (Body r) = Inr req0
    \<and> client_Do env (req0\<lparr>oHeader := copy_Header (oHeader req0) (Header r)\<rparr>) = Inl err \<longrightarrow>
      ServeHTTP env p t_get t_set w r =
        (p\<lparr>cache := c1\<rparr>, http_Error w ''Error forwarding request'' http_StatusBadGateway)
      \<and> Cache_entry c1 (cacheKey r) = None
      \<and> (Cache_entry (cache p) (cacheKey r) = None \<longrightarrow> c1 = cache p))
   \<and> (cache_Get (targetURL originServer r) = Inl e \<and> http_Get (targetURL originServer r) = Inl e' \<longrightarrow>
      response (handleRequest originServer cache_Get http_Get w r) =
        http_Error w ''Error contacting origin server'' http_StatusBadGateway
      \<and> cache_Set_calls (handleRequest originServer cache_Get http_Get w r) = [])
   \<and> http_Error new_ResponseWriter msg http_StatusBadGateway
        = Inr \<lparr>wHeader = [(''Content-Type'', [''text/plain; charset=utf-8'']),
                            (''X-Content-Type-Options'', [''nosniff''])],
               wInformational = [], wStatus = Some 502, wBody = msg @ [CHR 0x0A]\<rparr>"
proof (intro conjI impI)
  assume a: "Cache_Get (cache p) t_get (cacheKey r) = (c1, None)
    \<and> http_NewRequest env (Method r) (backendURL p @ url_String (URL r)) (Body r) = Inr req0
    \<and> client_Do env (req0\<lparr>oHeader := copy_Header (oHeader req0) (Header r)\<rparr>) = Inl err"
  then show "ServeHTTP env p t_get t_set w r =
        (p\<lparr>cache := c1\<rparr>, http_Error w ''Error forwarding request'' http_StatusBadGateway)"
    by (intro ServeHTTP_forward_failed) blast+
  from a show "Cache_entry c1 (cacheKey r) = None"
    by (intro Cache_Get_miss_entry [of "cache p" t_get]) simp
  assume "Cache_entry (cache p) (cacheKey r) = None"
  with a show "c1 = cache p"
    by (simp add: Cache_Get_absent)
next
  assume a: "cache_Get (targetURL originServer r) = Inl e \<and> http_Get (targetURL originServer r) = Inl e'"
  then show "response (handleRequest originServer cache_Get http_Get w r) =
        http_Error w ''Error contacting origin server'' http_StatusBadGateway"
    by (simp add: handleRequest_def)
  from a show "cache_Set_calls (handleRequest originServer cache_Get http_Get w r) = []"
    by (simp add: handleRequest_def)
next
  show "http_Error new_ResponseWriter msg http_StatusBadGateway
        = Inr \<lparr>wHeader = [(''Content-Type'', [''text/plain; charset=utf-8'']),
                            (''X-Content-Type-Options'', [''nosniff''])],
               wInformational = [], wStatus = Some 502, wBody = msg @ [CHR 0x0A]\<rparr>"
    by (rule http_Error_fresh)
qed

theorem failed_fetch_is_not_cached_witness:
  "ServeHTTP (plain_env (Inl ''timeout''))
      \<lparr>cache = \<lparr>lru = \<lparr>lru_size = 2, lru_items = []\<rparr>, csize = 2, ttl = 5\<rparr>, backendURL = ''http://o''\<rparr>
      0 1 new_ResponseWriter (GET ''/a'' [])
     = (\<lparr>cache = \<lparr>lru = \<lparr>lru_size = 2, lru_items = []\<rparr>, csize = 2, ttl = 5\<rparr>, backendURL = ''http://o''\<rparr>,
        http_Error new_ResponseWriter ''Error forwarding request'' http_StatusBadGateway)
   \<and> response (handleRequest ''http://o'' redis_empty origin_down new_ResponseWriter (GET ''/a'' []))
     = http_Error new_ResponseWriter ''Error contacting origin server'' http_StatusBadGateway
   \<and> cache_Set_calls (handleRequest ''http://o'' redis_empty origin_down new_ResponseWriter
        (GET ''/a'' [])) = []
   \<and> http_Error new_ResponseWriter ''Error forwarding request'' http_StatusBadGateway
     = Inr \<lparr>wHeader = [(''Content-Type'', [''text/plain; charset=utf-8'']),
                         (''X-Content-Type-Options'', [''nosniff''])],
            wInformational = [], wStatus = Some 502,
            wBody = ''Error forwarding request'' @ [CHR 0x0A]\<rparr>"
proof -
  let ?env = "plain_env (Inl ''timeout'')"
  let ?c0 = "\<lparr>lru = \<lparr>lru_size = 2, lru_items = []\<rparr>, csize = 2, ttl = 5\<rparr>"
  let ?p0 = "\<lparr>cache = ?c0, backendURL = ''http://o''\<rparr>"
  let ?r = "GET ''/a'' []"
  let ?req = "\<lparr>oMethod = ''GET'', oURL = ''http://o/a'', oHeader = [], oBody = []\<rparr>"
  have url: "url_String (URL ?r) = ''/a''"
    by (simp add: GET_def url_defs)
  have miss: "Cache_Get (cache ?p0) 0 (cacheKey ?r) = (?c0, None)
    \<and> http_NewRequest ?env (Method ?r) (backendURL ?p0 @ url_String (URL ?r)) (Body ?r) = Inr ?req
    \<and> client_Do ?env (?req\<lparr>oHeader := copy_Header (oHeader ?req) (Header ?r)\<rparr>) = Inl ''timeout''"
    using url [unfolded GET_def, simplified]
    by (simp add: cacheKey_def Cache_Get_def lru_Get_def example_defs copy_Header_def)
  have absent: "Cache_entry (cache ?p0) (cacheKey ?r) = None"
    by (simp add: Cache_entry_def)
  have down: "redis_empty (targetURL ''http://o'' ?r) = Inl redis_Nil
    \<and> origin_down (targetURL ''http://o'' ?r) = Inl ''dial tcp: connection refused''"
    by (simp add: redis_empty_def origin_down_def)
  from miss absent failed_fetch_is_not_cached
    [where p = ?p0 and env = ?env and r = ?r and t_get = 0 and t_set = 1 and ?c1.0 = ?c0
       and ?req0.0 = ?req and err = "''timeout''" and w = new_ResponseWriter
       and msg = "''Error forwarding request''"]
  have a: "ServeHTTP ?env ?p0 0 1 new_ResponseWriter ?r =
        (?p0\<lparr>cache := ?c0\<rparr>, http_Error new_ResponseWriter ''Error forwarding request'' http_StatusBadGateway)
     \<and> http_Error new_ResponseWriter ''Error forwarding request'' http_StatusBadGateway
       = Inr \<lparr>wHeader = [(''Content-Type'', [''text/plain; charset=utf-8'']),
                           (''X-Content-Type-Options'', [''nosniff''])],
              wInformational = [], wStatus = Some 502,
              wBody = ''Error forwarding request'' @ [CHR 0x0A]\<rparr>"
    by blast
  from down failed_fetch_is_not_cached
    [where cache_Get = redis_empty and originServer = "''http://o''" and r = ?r
       and e = redis_Nil and http_Get = origin_down and e' = "''dial tcp: connection refused''"
       and w = new_ResponseWriter]
  have b: "response (handleRequest ''http://o'' redis_empty origin_down new_ResponseWriter ?r)
       = http_Error new_ResponseWriter ''Error contacting origin server'' http_StatusBadGateway
     \<and> cache_Set_calls (handleRequest ''http://o'' redis_empty origin_down new_ResponseWriter ?r) = []"
    by blast
  from a b show ?thesis by simp
qed

text \<open>
  The store is not always unchanged by the failed request: an entry that expired at
  time 5 is still held before a request at time 9 whose fetch fails, and is gone after.
\<close>

theorem failed_fetch_drops_stale_entry_counterexample:
  "Cache_Keys (cache \<lparr>cache = \<lparr>lru = \<lparr>lru_size = 2, lru_items =
        [(''/a'', \<lparr>Response = ''old'', Expires = 5\<rparr>)]\<rparr>, csize = 2, ttl = 5\<rparr>,
        backendURL = ''http://o''\<rparr>) = [''/a'']
   \<and> snd (ServeHTTP (plain_env (Inl ''timeout''))
        \<lparr>cache = \<lparr>lru = \<lparr>lru_size = 2, lru_items =
          [(''/a'', \<lparr>Response = ''old'', Expires = 5\<rparr>)]\<rparr>, csize = 2, ttl = 5\<rparr>,
          backendURL = ''http://o''\<rparr>
        9 10 new_ResponseWriter (GET ''/a'' []))
     = Inr \<lparr>wHeader = [(''Content-Type'', [''text/plain; charset=utf-8'']),
                         (''X-Content-Type-Options'', [''nosniff''])],
            wInformational = [], wStatus = Some 502,
            wBody = ''Error forwarding request'' @ [CHR 0x0A]\<rparr>
   \<and> Cache_Keys (cache (fst (ServeHTTP (plain_env (Inl ''timeout''))
        \<lparr>cache = \<lparr>lru = \<lparr>lru_size = 2, lru_items =
          [(''/a'', \<lparr>Response = ''old'', Expires = 5\<rparr>)]\<rparr>, csize = 2, ttl = 5\<rparr>,
          backendURL = ''http://o''\<rparr>
        9 10 new_ResponseWriter (GET ''/a'' [])))) = []"
proof -
  have url: "url_String (URL (GET ''/a'' [])) = ''/a''"
    by (simp add: GET_def url_defs)
  from url [unfolded GET_def, simplified] show ?thesis
    by (simp add: ServeHTTP_def cacheKey_def cache_defs example_defs writer_defs
        copy_Header_def Cache_Keys_def lru_Keys_def)
qed

section \<open>A lookup that fails\<close>

text \<open>
  Claim C7. In the Redis-backed handler every error of the lookup, whatever it is, is
  handled as a missing key is: the handler fetches the target URL from the origin, once,
  and everything it does is what it does when Redis answers \<open>redis.Nil\<close>. The request
  is not failed for it: when the origin answers, with a status the writer sends as the
  final status, the client is sent the origin's status and headers, and the body where
  that status allows one; when the origin cannot be reached, the client is sent the 502
  of a failed fetch.
\<close>

theorem lookup_error_is_a_miss:
  assumes "cache_Get (targetURL originServer r) = Inl err"
  shows "origin_Get_calls (handleRequest originServer cache_Get http_Get w r)
           = [targetURL originServer r]
     \<and> handleRequest originServer cache_Get http_Get w r
           = handleRequest originServer redis_empty http_Get w r
     \<and> (http_Get (targetURL originServer r) = Inr resp \<and> RespBody resp = Reader B rerr
          \<and> final_status (StatusCode resp) \<longrightarrow>
        response (handleRequest originServer cache_Get http_Get new_ResponseWriter r)
          = Inr \<lparr>wHeader = copy_Header [] (RespHeader resp), wInformational = [],
                 wStatus = Some (StatusCode resp),
                 wBody = (if bodyAllowedForStatus (StatusCode resp) then B else [])\<rparr>)
     \<and> (http_Get (targetURL originServer r) = Inl err' \<longrightarrow>
        response (handleRequest originServer cache_Get http_Get new_ResponseWriter r)
          = Inr \<lparr>wHeader = [(''Content-Type'', [''text/plain; charset=utf-8'']),
                              (''X-Content-Type-Options'', [''nosniff''])],
                 wInformational = [], wStatus = Some 502,
                 wBody = ''Error contacting origin server'' @ [CHR 0x0A]\<rparr>)"
proof (intro conjI impI)
  from assms show "origin_Get_calls (handleRequest originServer cache_Get http_Get w r)
      = [targetURL originServer r]"
    by (simp add: handleRequest_def Let_def split: sum.splits)
  from assms show "handleRequest originServer cache_Get http_Get w r
      = handleRequest originServer redis_empty http_Get w r"
    by (simp add: handleRequest_def redis_empty_def)
next
  assume a: "http_Get (targetURL originServer r) = Inr resp \<and> RespBody resp = Reader B rerr
          \<and> final_status (StatusCode resp)"
  have "rw_WriteHeader (new_ResponseWriter\<lparr>wHeader :=
        copy_Header (wHeader new_ResponseWriter) (RespHeader resp)\<rparr>) (StatusCode resp)
      = Inr (new_ResponseWriter\<lparr>wHeader := copy_Header (wHeader new_ResponseWriter) (RespHeader resp),
          wStatus := Some (StatusCode resp)\<rparr>)"
    using a by (simp add: rw_WriteHeader_final new_ResponseWriter_def)
  with assms a show "response (handleRequest originServer cache_Get http_Get new_ResponseWriter r)
          = Inr \<lparr>wHeader = copy_Header [] (RespHeader resp), wInformational = [],
                 wStatus = Some (StatusCode resp),
                 wBody = (if bodyAllowedForStatus (StatusCode resp) then B else [])\<rparr>"
    by (simp add: handleRequest_def new_ResponseWriter_def rw_Write_body)
next
  assume "http_Get (targetURL originServer r) = Inl err'"
  with assms show "response (handleRequest originServer cache_Get http_Get new_ResponseWriter r)
          = Inr \<lparr>wHeader = [(''Content-Type'', [''text/plain; charset=utf-8'']),
                              (''X-Content-Type-Options'', [''nosniff''])],
                 wInformational = [], wStatus = Some 502,
                 wBody = ''Error contacting origin server'' @ [CHR 0x0A]\<rparr>"
    by (simp add: handleRequest_def http_Error_fresh)
qed

theorem lookup_error_is_a_miss_witness:
  "redis_down (targetURL ''http://o'' (GET ''/a'' [])) = Inl ''dial tcp: connection refused''
   \<and> origin_Get_calls (handleRequest ''http://o'' redis_down
        (origin_serving \<lparr>StatusCode = 404, RespHeader = [(''X-A'', [''1''])], RespBody = Reader ''nf'' None\<rparr>)
        new_ResponseWriter (GET ''/a'' [])) = [''http://o/a'']
   \<and> handleRequest ''http://o'' redis_down
        (origin_serving \<lparr>StatusCode = 404, RespHeader = [(''X-A'', [''1''])], RespBody = Reader ''nf'' None\<rparr>)
        new_ResponseWriter (GET ''/a'' [])
     = handleRequest ''http://o'' redis_empty
        (origin_serving \<lparr>StatusCode = 404, RespHeader = [(''X-A'', [''1''])], RespBody = Reader ''nf'' None\<rparr>)
        new_ResponseWriter (GET ''/a'' [])
   \<and> response (handleRequest ''http://o'' redis_down
        (origin_serving \<lparr>StatusCode = 404, RespHeader = [(''X-A'', [''1''])], RespBody = Reader ''nf'' None\<rparr>)
        new_ResponseWriter (GET ''/a'' []))
     = Inr \<lparr>wHeader = [(''X-A'', [''1''])], wInformational = [], wStatus = Some 404, wBody = ''nf''\<rparr>
   \<and> response (handleRequest ''http://o'' redis_down origin_down new_ResponseWriter (GET ''/a'' []))
     = Inr \<lparr>wHeader = [(''Content-Type'', [''text/plain; charset=utf-8'']),
                         (''X-Content-Type-Options'', [''nosniff''])],
            wInformational = [], wStatus = Some 502,
            wBody = ''Error contacting origin server'' @ [CHR 0x0A]\<rparr>"
proof -
  let ?resp = "\<lparr>StatusCode = 404, RespHeader = [(''X-A'', [''1''])], RespBody = Reader ''nf'' None\<rparr>"
  let ?origin = "origin_serving ?resp"
  let ?r = "GET ''/a'' []"
  have h: "redis_down (targetURL ''http://o'' ?r) = Inl ''dial tcp: connection refused''"
    by (simp add: redis_down_def)
  have k: "targetURL ''http://o'' ?r = ''http://o/a''"
    by (simp add: targetURL_def GET_def)
  have served: "?origin (targetURL ''http://o'' ?r) = Inr ?resp \<and> RespBody ?resp = Reader ''nf'' None
      \<and> final_status (StatusCode ?resp)"
    by (simp add: origin_serving_def final_status_def)
  have allowed: "bodyAllowedForStatus (StatusCode ?resp)"
    by (simp add: bodyAllowedForStatus_def http_StatusNoContent_def http_StatusNotModified_def)
  have refused: "origin_down (targetURL ''http://o'' ?r) = Inl ''dial tcp: connection refused''"
    by (simp add: origin_down_def)
  note up = lookup_error_is_a_miss
    [where cache_Get = redis_down and originServer = "''http://o''" and r = ?r
       and err = "''dial tcp: connection refused''" and http_Get = ?origin
       and w = new_ResponseWriter and resp = ?resp and B = "''nf''" and rerr = None, OF h]
  note down = lookup_error_is_a_miss
    [where cache_Get = redis_down and originServer = "''http://o''" and r = ?r
       and err = "''dial tcp: connection refused''" and http_Get = origin_down
       and w = new_ResponseWriter and err' = "''dial tcp: connection refused''", OF h]
  from up have r1: "origin_Get_calls (handleRequest ''http://o'' redis_down ?origin
        new_ResponseWriter ?r) = [targetURL ''http://o'' ?r]"
    and r2: "handleRequest ''http://o'' redis_down ?origin new_ResponseWriter ?r
       = handleRequest ''http://o'' redis_empty ?origin new_ResponseWriter ?r"
    by blast+
  from up served have r3: "response (handleRequest ''http://o'' redis_down ?origin
        new_ResponseWriter ?r)
      = Inr \<lparr>wHeader = copy_Header [] (RespHeader ?resp), wInformational = [],
             wStatus = Some (StatusCode ?resp),
             wBody = (if bodyAllowedForStatus (StatusCode ?resp) then ''nf'' else [])\<rparr>"
    by blast
  from down refused have r4: "response (handleRequest ''http://o'' redis_down origin_down
        new_ResponseWriter ?r)
      = Inr \<lparr>wHeader = [(''Content-Type'', [''text/plain; charset=utf-8'']),
                          (''X-Content-Type-Options'', [''nosniff''])],
             wInformational = [], wStatus = Some 502,
             wBody = ''Error contacting origin server'' @ [CHR 0x0A]\<rparr>"
    by blast
  from r1 have r1': "origin_Get_calls (handleRequest ''http://o'' redis_down ?origin
        new_ResponseWriter ?r) = [''http://o/a'']"
    by (simp only: k)
  from r3 allowed have r3': "response (handleRequest ''http://o'' redis_down ?origin new_ResponseWriter ?r)
      = Inr \<lparr>wHeader = [(''X-A'', [''1''])], wInformational = [], wStatus = Some 404, wBody = ''nf''\<rparr>"
    by (simp add: copy_Header_def)
  from h r1' r2 r3' r4 show ?thesis by blast
qed

section \<open>A body that cannot be read\<close>

text \<open>
  The in-memory handler answers 500 and leaves the store as the lookup left it when the
  body of the origin's response cannot be read to its end.
\<close>

lemma ServeHTTP_read_failed_not_cached:
  assumes "Cache_Get (cache p) t_get (cacheKey r) = (c1, None)"
    and "http_NewRequest env (Method r) (backendURL p @ url_String (URL r)) (Body r) = Inr req0"
    and "client_Do env (req0\<lparr>oHeader := copy_Header (oHeader req0) (Header r)\<rparr>) = Inr resp"
    and "RespBody resp = Reader bs (Some err)"
  shows "snd (ServeHTTP env p t_get t_set new_ResponseWriter r)
       = Inr \<lparr>wHeader = [(''Content-Type'', [''text/plain; charset=utf-8'']),
                           (''X-Content-Type-Options'', [''nosniff''])],
              wInformational = [], wStatus = Some 500,
              wBody = ''Error reading response'' @ [CHR 0x0A]\<rparr>
     \<and> cache (fst (ServeHTTP env p t_get t_set new_ResponseWriter r)) = c1"
  using ServeHTTP_read_failed [OF assms] by (simp add: http_Error_fresh)

text \<open>
  Claim C8 fails on the Redis-backed handler, which drops the error of \<open>io.ReadAll\<close>
  (\<open>body, _ := io.ReadAll(resp.Body)\<close>). For an origin response of status 200 whose
  body breaks off after the bytes \<open>ab\<close>, the handler has by then sent the 200 and the
  headers; it stores \<open>ab\<close> under the request's key for 300 seconds and sends \<open>ab\<close>
  to the client.
\<close>

theorem handleRequest_caches_unread_body:
  "handleRequest ''http://o'' redis_empty
      (origin_serving \<lparr>StatusCode = 200, RespHeader = [(''Content-Length'', [''4''])],
                        RespBody = Reader ''ab'' (Some ''unexpected EOF'')\<rparr>)
      new_ResponseWriter (GET ''/a'' [])
     = \<lparr>response = Inr \<lparr>wHeader = [(''Content-Length'', [''4''])], wInformational = [],
                         wStatus = Some 200, wBody = ''ab''\<rparr>,
        cache_Set_calls = [(''http://o/a'', ''ab'', 300000000000)],
        origin_Get_calls = [''http://o/a'']\<rparr>"
  by (simp add: handleRequest_def targetURL_def example_defs writer_defs copy_Header_def
      time_Second_def Let_def)

section \<open>What the Redis-backed handler stores\<close>




end
